theory Spec2Isabelle
  imports Main "HOL-Library.AList" "HOL-Library.Sublist"
begin

text \<open>
  A model of \<^verbatim>\<open>audit.py\<close>, the command-line tool that scaffolds audit projects,
  records file inventories at the start and the stop of a session and exports shell logs
  to HTML. The file system, the terminal and the clock are an explicit \<open>world\<close>;
  every function of the source takes the world and returns the new one, together with
  the exception it raised, if any.
\<close>

section \<open>Text helpers\<close>

text \<open>
  Python \<^verbatim>\<open>str\<close> values are modelled as HOL strings, holding the UTF-8 bytes of the
  text. Text written to a file is stored as it is (the tool writes UTF-8, and
  \<^verbatim>\<open>os.linesep\<close> is taken to be a single newline), so a file's content is a string
  as well. Python pads a text by its number of characters: \<open>text_len\<close> counts the
  bytes that do not continue a character.
\<close>

definition cont_byte :: "char \<Rightarrow> bool" where
  "cont_byte c = (128 \<le> (of_char c :: nat) \<and> (of_char c :: nat) < 192)"

definition text_len :: "string \<Rightarrow> nat" where
  "text_len s = length (filter (\<lambda>c. \<not> cont_byte c) s)"

definition upper_char :: "char \<Rightarrow> char" where
  "upper_char c =
     (if (97::nat) \<le> of_char c \<and> of_char c \<le> (122::nat)
      then char_of (of_char c - (32::nat)) else c)"

definition upper :: "string \<Rightarrow> string" where
  "upper s = map upper_char s"

definition ljust :: "nat \<Rightarrow> string \<Rightarrow> string" where
  "ljust n s = s @ replicate (n - text_len s) CHR '' ''"

definition rjust :: "nat \<Rightarrow> string \<Rightarrow> string" where
  "rjust n s = replicate (n - text_len s) CHR '' '' @ s"

definition endswith :: "string \<Rightarrow> string \<Rightarrow> bool" where
  "endswith s suf = (length suf \<le> length s \<and> drop (length s - length suf) s = suf)"

definition digit :: "nat \<Rightarrow> char" where
  "digit d = char_of (48 + d)"

fun digits :: "nat \<Rightarrow> string" where
  "digits n = (if n < 10 then [digit n] else digits (n div 10) @ [digit (n mod 10)])"

text \<open>
  \<^verbatim>\<open>size / 1024\<close> is exact in binary floating point (for sizes below \<open>2^53\<close>), and
  the format \<^verbatim>\<open>.2f\<close> rounds the exact value to two decimals, ties to even.
\<close>

definition round_half_even :: "nat \<Rightarrow> nat \<Rightarrow> nat" where
  "round_half_even a b =
     (let q = a div b; r = a mod b in
      if 2 * r < b then q
      else if b < 2 * r then q + 1
      else if even q then q else q + 1)"

definition format_kb :: "nat \<Rightarrow> string" where
  "format_kb size_bytes =
     (let h = round_half_even (size_bytes * 100) 1024 in
      digits (h div 100) @ ''.'' @ [digit (h mod 100 div 10), digit (h mod 10)])"

section \<open>Path strings (\<^verbatim>\<open>os.path\<close>, POSIX flavour)\<close>

text \<open>
  \<^verbatim>\<open>os.path\<close> is \<^verbatim>\<open>posixpath\<close> here: the separator is the slash. \<open>join\<close> is
  \<^verbatim>\<open>os.path.join\<close> of two arguments (the call with three arguments joins twice).
\<close>

definition join :: "string \<Rightarrow> string \<Rightarrow> string" where
  "join a b =
     (if b \<noteq> [] \<and> hd b = CHR ''/'' then b
      else if a = [] then b
      else if last a = CHR ''/'' then a @ b
      else a @ ''/'' @ b)"

definition basename :: "string \<Rightarrow> string" where
  "basename p = rev (takeWhile (\<lambda>c. c \<noteq> CHR ''/'') (rev p))"

fun split_sep :: "string \<Rightarrow> string list" where
  "split_sep [] = [[]]"
| "split_sep (c # cs) =
     (if c = CHR ''/'' then [] # split_sep cs
      else (case split_sep cs of [] \<Rightarrow> [[c]] | x # xs \<Rightarrow> (c # x) # xs))"

fun norm_comps :: "bool \<Rightarrow> string list \<Rightarrow> string list \<Rightarrow> string list" where
  "norm_comps initial_slashes [] new_comps = new_comps"
| "norm_comps initial_slashes (c # comps) new_comps =
     (if c = [] \<or> c = ''.'' then norm_comps initial_slashes comps new_comps
      else if c = ''..'' then
        (if (\<not> initial_slashes \<and> new_comps = []) \<or> (new_comps \<noteq> [] \<and> last new_comps = ''..'')
         then norm_comps initial_slashes comps (new_comps @ [c])
         else if new_comps \<noteq> [] then norm_comps initial_slashes comps (butlast new_comps)
         else norm_comps initial_slashes comps new_comps)
      else norm_comps initial_slashes comps (new_comps @ [c]))"

fun intercalate :: "string \<Rightarrow> string list \<Rightarrow> string" where
  "intercalate s [] = []"
| "intercalate s [x] = x"
| "intercalate s (x # y # ys) = x @ s @ intercalate s (y # ys)"

definition normpath :: "string \<Rightarrow> string" where
  "normpath path =
     (if path = [] then ''.''
      else
        (let initial_slashes = (hd path = CHR ''/'');
             two = (take 2 path = ''//'' \<and> take 3 path \<noteq> ''///'');
             p = intercalate ''/'' (norm_comps initial_slashes (split_sep path) []);
             p' = (if initial_slashes then (if two then ''//'' else ''/'') @ p else p)
         in if p' = [] then ''.'' else p'))"

section \<open>The file system\<close>

text \<open>
  A directory lists its entries in enumeration order. A \<open>Broken\<close> entry is one that a
  directory listing reports as a non-directory but on which \<^verbatim>\<open>stat\<close> and
  \<^verbatim>\<open>open\<close> fail with the given OS error text (a dangling link, an entry of a
  directory that may be listed but not searched). Links that resolve and permission bits
  are not modelled.
\<close>

datatype node =
    File string nat
  | Dir "(string \<times> node) list"
  | Broken string

text \<open>
  Exceptions, all of them subclasses of \<^verbatim>\<open>Exception\<close>: the ones the source raises
  itself (with their message), and the ones of the library. An \<open>OSError\<close> carries the
  error text of the system and the path; \<open>str_of\<close> is \<^verbatim>\<open>str(e)\<close>, the path quoted
  as \<^verbatim>\<open>repr\<close> quotes a plain name. A \<open>UnicodeEncodeError\<close> carries the text that
  could not be encoded; its message leaves out the character and its position.
\<close>

datatype error =
    Exception string
  | OSError string string
  | ValueError string
  | TypeError string
  | UnicodeEncodeError string

definition quoted :: "string \<Rightarrow> string" where
  "quoted s = [CHR 0x27] @ s @ [CHR 0x27]"

fun str_of :: "error \<Rightarrow> string" where
  "str_of (Exception m) = m"
| "str_of (OSError e f) = e @ '': '' @ quoted f"
| "str_of (ValueError m) = m"
| "str_of (TypeError m) = m"
| "str_of (UnicodeEncodeError s) =
     quoted ''utf-8'' @ '' codec can'' @ [CHR 0x27]
     @ ''t encode characters: surrogates not allowed''"

definition enoent :: string where "enoent = ''[Errno 2] No such file or directory''"
definition enotdir :: string where "enotdir = ''[Errno 20] Not a directory''"
definition eisdir :: string where "eisdir = ''[Errno 21] Is a directory''"
definition eexist :: string where "eexist = ''[Errno 17] File exists''"

datatype out = Colored string string | Help

record world =
  root_dir :: node
  cwd :: "string list"
  clock :: nat
  term_out :: "out list"

fun lookup :: "node \<Rightarrow> string list \<Rightarrow> node option" where
  "lookup n [] = Some n"
| "lookup (Dir es) (c # cs) = (case map_of es c of None \<Rightarrow> None | Some m \<Rightarrow> lookup m cs)"
| "lookup (File x t) (c # cs) = None"
| "lookup (Broken e) (c # cs) = None"

fun put :: "node \<Rightarrow> string list \<Rightarrow> node \<Rightarrow> node" where
  "put n [] new = new"
| "put (Dir es) [c] new = Dir (AList.update c new es)"
| "put (Dir es) (c # d # cs) new =
     (case map_of es c of
        None \<Rightarrow> Dir es
      | Some m \<Rightarrow> Dir (AList.update c (put m (d # cs) new) es))"
| "put (File x t) (c # cs) new = File x t"
| "put (Broken e) (c # cs) new = Broken e"

definition step_comp :: "string list \<Rightarrow> string \<Rightarrow> string list" where
  "step_comp cur c =
     (if c = [] \<or> c = ''.'' then cur else if c = ''..'' then butlast cur else cur @ [c])"

fun namei :: "node \<Rightarrow> string list \<Rightarrow> string list \<Rightarrow> string + string list" where
  "namei fs cur [] = Inr cur"
| "namei fs cur (c # cs) =
     (case lookup fs cur of
        None \<Rightarrow> Inl enoent
      | Some (File x t) \<Rightarrow> Inl enotdir
      | Some (Broken e) \<Rightarrow> Inl e
      | Some (Dir es) \<Rightarrow> namei fs (step_comp cur c) cs)"

definition resolve :: "world \<Rightarrow> string \<Rightarrow> string + string list" where
  "resolve w p =
     (if p = [] then Inl enoent
      else namei (root_dir w) (if hd p = CHR ''/'' then [] else cwd w) (split_sep p))"

definition stat :: "world \<Rightarrow> string \<Rightarrow> error + node" where
  "stat w p =
     (case resolve w p of
        Inl e \<Rightarrow> Inl (OSError e p)
      | Inr c \<Rightarrow>
          (case lookup (root_dir w) c of
             None \<Rightarrow> Inl (OSError enoent p)
           | Some (Broken e) \<Rightarrow> Inl (OSError e p)
           | Some (File x t) \<Rightarrow> Inr (File x t)
           | Some (Dir es) \<Rightarrow> Inr (Dir es)))"

definition path_exists :: "world \<Rightarrow> string \<Rightarrow> bool" where
  "path_exists w p = (case stat w p of Inl e \<Rightarrow> False | Inr n \<Rightarrow> True)"

definition getcwd :: "world \<Rightarrow> string" where
  "getcwd w = ''/'' @ intercalate ''/'' (cwd w)"

definition abspath :: "world \<Rightarrow> string \<Rightarrow> string" where
  "abspath w path =
     normpath (if path \<noteq> [] \<and> hd path = CHR ''/'' then path else join (getcwd w) path)"

definition relpath :: "world \<Rightarrow> string \<Rightarrow> string \<Rightarrow> error + string" where
  "relpath w path start =
     (if path = [] then Inl (ValueError ''no path specified'')
      else
        (let start_list = filter (\<lambda>x. x \<noteq> []) (split_sep (abspath w start));
             path_list = filter (\<lambda>x. x \<noteq> []) (split_sep (abspath w path));
             i = length (longest_common_prefix start_list path_list);
             rel_list = replicate (length start_list - i) ''..'' @ drop i path_list
         in if rel_list = [] then Inr ''.'' else Inr (foldl join (hd rel_list) (tl rel_list))))"

text \<open>
  \<^verbatim>\<open>os.path.getsize\<close> and \<^verbatim>\<open>os.path.getmtime\<close>. The metadata of a directory is not
  modelled (both report 0 for one); the scan asks for the entries that the walk lists as
  non-directories.
\<close>

definition getsize :: "world \<Rightarrow> string \<Rightarrow> error + nat" where
  "getsize w p =
     (case stat w p of
        Inl err \<Rightarrow> Inl err
      | Inr (File x t) \<Rightarrow> Inr (length x)
      | Inr (Dir es) \<Rightarrow> Inr 0
      | Inr (Broken b) \<Rightarrow> Inl (OSError b p))"

definition getmtime :: "world \<Rightarrow> string \<Rightarrow> error + nat" where
  "getmtime w p =
     (case stat w p of
        Inl err \<Rightarrow> Inl err
      | Inr (File x t) \<Rightarrow> Inr t
      | Inr (Dir es) \<Rightarrow> Inr 0
      | Inr (Broken b) \<Rightarrow> Inl (OSError b p))"

text \<open>
  \<^verbatim>\<open>os.walk\<close>, top down: one pair (directory path, names of its non-directory
  entries) per directory. A top that cannot be listed yields nothing.
\<close>

fun is_dir_node :: "node \<Rightarrow> bool" where
  "is_dir_node (Dir es) = True"
| "is_dir_node (File x t) = False"
| "is_dir_node (Broken e) = False"

definition nondirs :: "(string \<times> node) list \<Rightarrow> string list" where
  "nondirs es = map fst (filter (\<lambda>e. \<not> is_dir_node (snd e)) es)"

fun walk_node :: "string \<Rightarrow> node \<Rightarrow> (string \<times> string list) list"
  and walk_entries :: "string \<Rightarrow> (string \<times> node) list \<Rightarrow> (string \<times> string list) list" where
  "walk_node dirpath (Dir es) = (dirpath, nondirs es) # walk_entries dirpath es"
| "walk_node dirpath (File x t) = []"
| "walk_node dirpath (Broken e) = []"
| "walk_entries dirpath [] = []"
| "walk_entries dirpath ((n, m) # es) = walk_node (join dirpath n) m @ walk_entries dirpath es"

definition os_walk :: "world \<Rightarrow> string \<Rightarrow> (string \<times> string list) list" where
  "os_walk w dirpath = (case stat w dirpath of Inl err \<Rightarrow> [] | Inr n \<Rightarrow> walk_node dirpath n)"

definition listdir :: "world \<Rightarrow> string \<Rightarrow> error + string list" where
  "listdir w p =
     (case stat w p of
        Inl err \<Rightarrow> Inl err
      | Inr (Dir es) \<Rightarrow> Inr (map fst es)
      | Inr (File x t) \<Rightarrow> Inl (OSError enotdir p)
      | Inr (Broken b) \<Rightarrow> Inl (OSError b p))"

subsection \<open>Opening, writing and reading files\<close>

datatype mode = Append | Truncate

text \<open>
  \<^verbatim>\<open>open(p, 'a')\<close> and \<^verbatim>\<open>open(p, 'w')\<close>: the file is created when absent (its
  directory must exist), emptied in mode \<open>w\<close>; the handle is the resolved path.
\<close>

definition open_out :: "mode \<Rightarrow> world \<Rightarrow> string \<Rightarrow> error + (string list \<times> world)" where
  "open_out m w p =
     (case resolve w p of
        Inl e \<Rightarrow> Inl (OSError e p)
      | Inr c \<Rightarrow>
          (case lookup (root_dir w) c of
             Some (Dir es) \<Rightarrow> Inl (OSError eisdir p)
           | Some (Broken b) \<Rightarrow> Inl (OSError b p)
           | Some (File x t) \<Rightarrow>
               Inr (c, (case m of
                          Append \<Rightarrow> w
                        | Truncate \<Rightarrow> w\<lparr>root_dir := put (root_dir w) c (File [] (clock w))\<rparr>))
           | None \<Rightarrow> Inr (c, w\<lparr>root_dir := put (root_dir w) c (File [] (clock w))\<rparr>)))"

definition fwrite :: "string list \<Rightarrow> string \<Rightarrow> world \<Rightarrow> world" where
  "fwrite h txt w =
     (case lookup (root_dir w) h of
        Some (File x t) \<Rightarrow> w\<lparr>root_dir := put (root_dir w) h (File (x @ txt) (clock w))\<rparr>
      | Some (Dir es) \<Rightarrow> w
      | Some (Broken b) \<Rightarrow> w
      | None \<Rightarrow> w)"

text \<open>
  Encoding. Strings are held as the bytes the operating system gives: a name read from
  a directory or from the command line is decoded with the handler
  \<^verbatim>\<open>surrogateescape\<close>, so it holds a lone surrogate exactly when its bytes are not
  valid UTF-8. \<open>utf8_len\<close> is the length of the well-formed UTF-8 sequence at the head
  of the bytes (0 when there is none), as Python's strict decoder accepts it.
\<close>

definition second_byte :: "nat \<Rightarrow> char \<Rightarrow> bool" where
  "second_byte b c =
     (let s = (of_char c :: nat) in
      if b = 224 then 160 \<le> s \<and> s < 192
      else if b = 237 then 128 \<le> s \<and> s < 160
      else if b = 240 then 144 \<le> s \<and> s < 192
      else if b = 244 then 128 \<le> s \<and> s < 144
      else 128 \<le> s \<and> s < 192)"

definition utf8_len :: "string \<Rightarrow> nat" where
  "utf8_len bs =
     (case bs of
        [] \<Rightarrow> 0
      | c # cs \<Rightarrow>
          (let b = (of_char c :: nat) in
           if b < 128 then 1
           else if 194 \<le> b \<and> b < 224 then
             (case cs of
                c1 # r \<Rightarrow> (if cont_byte c1 then 2 else 0)
              | [] \<Rightarrow> 0)
           else if 224 \<le> b \<and> b < 240 then
             (case cs of
                c1 # c2 # r \<Rightarrow> (if second_byte b c1 \<and> cont_byte c2 then 3 else 0)
              | [c1] \<Rightarrow> 0
              | [] \<Rightarrow> 0)
           else if 240 \<le> b \<and> b < 245 then
             (case cs of
                c1 # c2 # c3 # r \<Rightarrow>
                  (if second_byte b c1 \<and> cont_byte c2 \<and> cont_byte c3 then 4 else 0)
              | [c1, c2] \<Rightarrow> 0
              | [c1] \<Rightarrow> 0
              | [] \<Rightarrow> 0)
           else 0))"

function utf8_valid :: "string \<Rightarrow> bool" where
  "utf8_valid [] = True"
| "utf8_valid (c # cs) =
     (if utf8_len (c # cs) = 0 then False
      else utf8_valid (drop (utf8_len (c # cs) - 1) cs))"
  by pat_completeness auto
termination
  by (relation "measure length") auto

text \<open>
  What \<^verbatim>\<open>f.write(s)\<close> hands to a file opened with \<^verbatim>\<open>encoding='utf-8'\<close>: the text,
  or \<^verbatim>\<open>UnicodeEncodeError\<close> when it holds a lone surrogate. The first argument lists
  the names that the text interpolates; the other parts of the texts the source writes
  (literals, numbers, \<^verbatim>\<open>time.ctime\<close>, \<^verbatim>\<open>str(e)\<close>, which quotes names with their
  surrogates escaped, and text decoded with \<^verbatim>\<open>errors='ignore'\<close>) hold none. A failed
  write leaves the file as the earlier writes made it.
\<close>

definition encoded :: "string list \<Rightarrow> string \<Rightarrow> error + string" where
  "encoded names body =
     (case filter (\<lambda>n. \<not> utf8_valid n) names of
        [] \<Rightarrow> Inr body
      | n # ns \<Rightarrow> Inl (UnicodeEncodeError n))"

text \<open>Writes in sequence: the texts written until the first write that raises.\<close>

fun run_writes :: "(error + string) list \<Rightarrow> string list \<times> error option" where
  "run_writes [] = ([], None)"
| "run_writes (Inl err # rs) = ([], Some err)"
| "run_writes (Inr body # rs) = (case run_writes rs of (bodies, r) \<Rightarrow> (body # bodies, r))"

text \<open>
  Decoding. A codec looks at the bytes that remain and either decodes one character
  (its text, and how many bytes it took) or reports how many bytes are undecodable. The
  error handler \<^verbatim>\<open>errors='ignore'\<close> of the source puts nothing in their place.
\<close>

type_synonym codec = "string \<Rightarrow> string option \<times> nat"

function decode_ignore :: "codec \<Rightarrow> string \<Rightarrow> string" where
  "decode_ignore dec [] = []"
| "decode_ignore dec (b # bs) =
     (case dec (b # bs) of
        (Some t, n) \<Rightarrow> t @ decode_ignore dec (drop (n - 1) bs)
      | (None, n) \<Rightarrow> decode_ignore dec (drop (n - 1) bs))"
  by pat_completeness auto
termination
  by (relation "measure (\<lambda>(dec, bs). length bs)") auto

fun universal_newlines :: "string \<Rightarrow> string" where
  "universal_newlines [] = []"
| "universal_newlines [c] = (if c = CHR 0x0D then [CHR 0x0A] else [c])"
| "universal_newlines (c # d # cs) =
     (if c = CHR 0x0D then
        (if d = CHR 0x0A then CHR 0x0A # universal_newlines cs
         else CHR 0x0A # universal_newlines (d # cs))
      else c # universal_newlines (d # cs))"

section \<open>Configuration and environment\<close>

text \<open>
  The module \<^verbatim>\<open>config\<close>, the install folder, \<^verbatim>\<open>time.ctime\<close>, the platform's
  default text codec and \<^verbatim>\<open>subprocess.check_output\<close> are parameters.
  \<open>AUDIT_FOLDER\<close> is the value after the expansion of line 13.
\<close>

record env =
  AUDIT_FOLDER :: string
  SCREENSHOTS :: bool
  GIT_AUTOCOMMIT :: bool
  INSTALL_FOLDER :: string
  ctime :: "nat \<Rightarrow> string"
  codec :: codec
  check_output :: "string list \<Rightarrow> world \<Rightarrow> (error + string) \<times> world"

definition read_text :: "env \<Rightarrow> world \<Rightarrow> string \<Rightarrow> error + string" where
  "read_text e w p =
     (case stat w p of
        Inl err \<Rightarrow> Inl err
      | Inr (File x t) \<Rightarrow> Inr (universal_newlines (decode_ignore (codec e) x))
      | Inr (Dir es) \<Rightarrow> Inl (OSError eisdir p)
      | Inr (Broken b) \<Rightarrow> Inl (OSError b p))"

section \<open>Logging utilities\<close>

text \<open>
  Printing to the terminal is taken to succeed, whatever the text: the encoding and the
  error handler of the standard output are those of the environment, not of the tool.
\<close>

definition log_info :: "string \<Rightarrow> world \<Rightarrow> world" where
  "log_info logstr w = w\<lparr>term_out := term_out w @ [Colored (''[+] '' @ logstr) ''green'']\<rparr>"

definition log_warning :: "string \<Rightarrow> world \<Rightarrow> world" where
  "log_warning logstr w = w\<lparr>term_out := term_out w @ [Colored (''[!] '' @ logstr) ''yellow'']\<rparr>"

definition log_error :: "string \<Rightarrow> world \<Rightarrow> world" where
  "log_error logstr w = w\<lparr>term_out := term_out w @ [Colored (''[X] '' @ logstr) ''red'']\<rparr>"

definition print_help :: "world \<Rightarrow> world" where
  "print_help w = w\<lparr>term_out := term_out w @ [Help]\<rparr>"

section \<open>Core utilities\<close>

definition get_fullpath :: "env \<Rightarrow> string \<Rightarrow> bool \<Rightarrow> world \<Rightarrow> error + string" where
  "get_fullpath e audit_name raiseerror w =
     (let fullpath = join (AUDIT_FOLDER e) audit_name in
      if \<not> path_exists w fullpath \<and> raiseerror
      then Inl (Exception (''Audit folder does not exist : '' @ fullpath))
      else Inr fullpath)"

section \<open>File inventory logger\<close>

definition nl :: string where
  "nl = [CHR 0x0A]"

text \<open>
  The body of the \<^verbatim>\<open>try\<close> of one file: the line written, or the exception. The
  line interpolates the relative path, so its write raises when a name on that path is
  not encodable.
\<close>

definition inventory_line :: "env \<Rightarrow> world \<Rightarrow> string \<Rightarrow> string \<Rightarrow> string \<Rightarrow> error + string" where
  "inventory_line e w audit_path root file =
     (let file_path = join root file in
      case getsize w file_path of
        Inl err \<Rightarrow> Inl err
      | Inr size_bytes \<Rightarrow>
          (case getmtime w file_path of
             Inl err \<Rightarrow> Inl err
           | Inr mtime \<Rightarrow>
               (case relpath w file_path audit_path of
                  Inl err \<Rightarrow> Inl err
                | Inr relative_path \<Rightarrow>
                    encoded [relative_path]
                      (ljust 80 relative_path @ ''  '' @ rjust 10 (format_kb size_bytes)
                       @ '' KB   Modified: '' @ ctime e mtime @ nl))))"

text \<open>
  The whole \<^verbatim>\<open>try\<close> statement of one file: the text it writes to the log, or the
  exception that leaves it. The handler writes the name of the file again, so it raises
  itself when that name is not encodable.
\<close>

definition entry_write :: "env \<Rightarrow> world \<Rightarrow> string \<Rightarrow> string \<Rightarrow> string \<Rightarrow> error + string" where
  "entry_write e w audit_path root file =
     (case inventory_line e w audit_path root file of
        Inr line \<Rightarrow> Inr line
      | Inl err \<Rightarrow> encoded [file] (''ERROR reading '' @ file @ '': '' @ str_of err @ nl))"

text \<open>
  The two loops over the walk. The result lists the texts written, one per
  \<^verbatim>\<open>f.write\<close> call, in order, and the exception that ended the scan, if any.
\<close>

fun scan_files ::
    "env \<Rightarrow> world \<Rightarrow> string \<Rightarrow> string \<Rightarrow> string list \<Rightarrow> string list \<times> error option" where
  "scan_files e w audit_path root [] = ([], None)"
| "scan_files e w audit_path root (file # files) =
     (if file = ''audit_file_list.txt'' then scan_files e w audit_path root files
      else
        (case entry_write e w audit_path root file of
           Inl err \<Rightarrow> ([], Some err)
         | Inr body \<Rightarrow>
             (case scan_files e w audit_path root files of
                (bodies, r) \<Rightarrow> (body # bodies, r))))"

fun scan_walk ::
    "env \<Rightarrow> world \<Rightarrow> string \<Rightarrow> (string \<times> string list) list \<Rightarrow> string list \<times> error option" where
  "scan_walk e w audit_path [] = ([], None)"
| "scan_walk e w audit_path ((root, files) # rest) =
     (case scan_files e w audit_path root files of
        (bodies, Some err) \<Rightarrow> (bodies, Some err)
      | (bodies, None) \<Rightarrow>
          (case scan_walk e w audit_path rest of
             (later, r) \<Rightarrow> (bodies @ later, r)))"

text \<open>The three writes of the header.\<close>

definition header_writes ::
    "env \<Rightarrow> world \<Rightarrow> string \<Rightarrow> string \<Rightarrow> string list \<times> error option" where
  "header_writes e w audit_name mode =
     run_writes
       [encoded [mode] (nl @ ''=== Audit File Inventory ('' @ upper mode @ '' SESSION) ==='' @ nl),
        encoded [audit_name] (''Audit: '' @ audit_name @ nl),
        encoded [] (''Generated: '' @ ctime e (clock w) @ nl @ nl)]"

text \<open>
  When a write raises, the \<^verbatim>\<open>with\<close> statement closes the log, which then holds what
  was written before, and the exception leaves the function.
\<close>

definition generate_audit_file_log ::
    "env \<Rightarrow> string \<Rightarrow> string \<Rightarrow> world \<Rightarrow> (error + unit) \<times> world" where
  "generate_audit_file_log e audit_name mode w =
     (case get_fullpath e audit_name True w of
        Inl err \<Rightarrow> (Inl err, w)
      | Inr audit_path \<Rightarrow>
          (let log_file = join (join audit_path ''logs'') ''audit_file_list.txt'' in
           case open_out Append w log_file of
             Inl err \<Rightarrow> (Inl err, w)
           | Inr (f, w1) \<Rightarrow>
               (case header_writes e w1 audit_name mode of
                  (header, Some err) \<Rightarrow> (Inl err, fwrite f (concat header) w1)
                | (header, None) \<Rightarrow>
                    (case scan_walk e w1 audit_path (os_walk w1 audit_path) of
                       (bodies, Some err) \<Rightarrow> (Inl err, fwrite f (concat (header @ bodies)) w1)
                     | (bodies, None) \<Rightarrow>
                         (Inr (),
                          log_info (''Generated audit file list ('' @ mode @ '') at: '' @ log_file)
                            (fwrite f (concat (header @ bodies)) w1))))))"

section \<open>Core functions\<close>

fun list_loop :: "env \<Rightarrow> string list \<Rightarrow> world \<Rightarrow> world" where
  "list_loop e [] w = w"
| "list_loop e (file # files) w =
     list_loop e files
       (if path_exists w (join (join (AUDIT_FOLDER e) file) ''.audit'') then log_info file w
        else w)"

definition list_audits :: "env \<Rightarrow> world \<Rightarrow> (error + unit) \<times> world" where
  "list_audits e w =
     (if \<not> path_exists w (AUDIT_FOLDER e)
      then (Inl (Exception (''Main folder '' @ AUDIT_FOLDER e @ '' does not exist.'')), w)
      else
        (case listdir w (AUDIT_FOLDER e) of
           Inl err \<Rightarrow> (Inl err, w)
         | Inr files \<Rightarrow> (Inr (), list_loop e files w)))"

subsection \<open>\<^verbatim>\<open>shutil.copytree\<close>\<close>

text \<open>
  The copy of a tree keeps contents and modification times; an entry that cannot be
  read is left out and reported when the copy is over. \<^verbatim>\<open>os.makedirs\<close> creates the
  destination and the directories missing on the way to it. The destination is taken
  not to lie inside the source tree.
\<close>

fun copy_node :: "node \<Rightarrow> node option"
  and copy_entries :: "(string \<times> node) list \<Rightarrow> (string \<times> node) list" where
  "copy_node (File x t) = Some (File x t)"
| "copy_node (Dir es) = Some (Dir (copy_entries es))"
| "copy_node (Broken b) = None"
| "copy_entries [] = []"
| "copy_entries ((n, m) # es) =
     (case copy_node m of
        None \<Rightarrow> copy_entries es
      | Some m' \<Rightarrow> (n, m') # copy_entries es)"

fun copy_errors :: "string \<Rightarrow> node \<Rightarrow> string list"
  and copy_errors_entries :: "string \<Rightarrow> (string \<times> node) list \<Rightarrow> string list" where
  "copy_errors src (File x t) = []"
| "copy_errors src (Dir es) = copy_errors_entries src es"
| "copy_errors src (Broken b) = [src]"
| "copy_errors_entries src [] = []"
| "copy_errors_entries src ((n, m) # es) =
     copy_errors (join src n) m @ copy_errors_entries src es"

definition mkdir_at :: "node \<Rightarrow> string list \<Rightarrow> node \<Rightarrow> string + node" where
  "mkdir_at fs c new =
     (case lookup fs c of
        Some m \<Rightarrow> Inl eexist
      | None \<Rightarrow>
          (if c = [] then Inl enoent
           else
             (case lookup fs (butlast c) of
                Some (Dir es) \<Rightarrow> Inr (put fs c new)
              | Some (File x t) \<Rightarrow> Inl enotdir
              | Some (Broken b) \<Rightarrow> Inl b
              | None \<Rightarrow> Inl enoent)))"

fun makedirs_walk :: "node \<Rightarrow> string list \<Rightarrow> string list \<Rightarrow> (string + string list) \<times> node" where
  "makedirs_walk fs cur [] = (Inr cur, fs)"
| "makedirs_walk fs cur (c # cs) =
     (case lookup fs cur of
        Some (Dir es) \<Rightarrow> makedirs_walk fs (step_comp cur c) cs
      | Some (File x t) \<Rightarrow> (Inl enotdir, fs)
      | Some (Broken b) \<Rightarrow> (Inl b, fs)
      | None \<Rightarrow>
          (case mkdir_at fs cur (Dir []) of
             Inl err \<Rightarrow> (Inl err, fs)
           | Inr fs' \<Rightarrow> makedirs_walk fs' (step_comp cur c) cs))"

definition copytree :: "world \<Rightarrow> string \<Rightarrow> string \<Rightarrow> (error + unit) \<times> world" where
  "copytree w src dst =
     (case stat w src of
        Inl err \<Rightarrow> (Inl err, w)
      | Inr (File x t) \<Rightarrow> (Inl (OSError enotdir src), w)
      | Inr (Broken b) \<Rightarrow> (Inl (OSError b src), w)
      | Inr (Dir es) \<Rightarrow>
          (if dst = [] then (Inl (OSError enoent dst), w)
           else
             (case makedirs_walk (root_dir w) (if hd dst = CHR ''/'' then [] else cwd w)
                     (split_sep dst) of
                (Inl err, fs1) \<Rightarrow> (Inl (OSError err dst), w\<lparr>root_dir := fs1\<rparr>)
              | (Inr c, fs1) \<Rightarrow>
                  (case mkdir_at fs1 c (Dir (copy_entries es)) of
                     Inl err \<Rightarrow> (Inl (OSError err dst), w\<lparr>root_dir := fs1\<rparr>)
                   | Inr fs2 \<Rightarrow>
                       (if copy_errors_entries src es = [] then Inr ()
                        else Inl (Exception (intercalate '', '' (copy_errors_entries src es))),
                        w\<lparr>root_dir := fs2\<rparr>)))))"

subsection \<open>\<^verbatim>\<open>init\<close>\<close>

text \<open>The \<^verbatim>\<open>try\<close> around the three calls of git: the first failure ends it with a warning.\<close>

definition git_autocommit :: "env \<Rightarrow> string \<Rightarrow> world \<Rightarrow> world" where
  "git_autocommit e fullpath w =
     (case check_output e [''git'', ''init'', fullpath] w of
        (Inl err, w1) \<Rightarrow> log_warning (''Git initialization failed: '' @ str_of err) w1
      | (Inr o1, w1) \<Rightarrow>
          (case check_output e [''git'', ''-C'', fullpath, ''add'', ''.''] w1 of
             (Inl err, w2) \<Rightarrow> log_warning (''Git initialization failed: '' @ str_of err) w2
           | (Inr o2, w2) \<Rightarrow>
               (case check_output e
                       [''git'', ''-C'', fullpath, ''commit'', ''-m'', ''Initial audit project''] w2 of
                  (Inl err, w3) \<Rightarrow> log_warning (''Git initialization failed: '' @ str_of err) w3
                | (Inr o3, w3) \<Rightarrow> w3)))"

definition init :: "env \<Rightarrow> string \<Rightarrow> world \<Rightarrow> (error + unit) \<times> world" where
  "init e audit_name w =
     (if \<not> path_exists w (AUDIT_FOLDER e)
      then (Inl (Exception (''Main folder '' @ AUDIT_FOLDER e @ '' does not exist.'')), w)
      else
        (case get_fullpath e audit_name False w of
           Inl err \<Rightarrow> (Inl err, w)
         | Inr fullpath \<Rightarrow>
             (if path_exists w fullpath
              then (Inl (Exception (''Audit folder already exists: '' @ fullpath)), w)
              else
                (case copytree w (join (INSTALL_FOLDER e) ''skel'') fullpath of
                   (Inl err, w1) \<Rightarrow> (Inl err, w1)
                 | (Inr u, w1) \<Rightarrow>
                     (let w2 = (if GIT_AUTOCOMMIT e then git_autocommit e fullpath w1 else w1) in
                      case get_fullpath e audit_name True w2 of
                        Inl err \<Rightarrow> (Inl err, w2)
                      | Inr p \<Rightarrow> (Inr (), log_info (''Created audit project in '' @ p) w2))))))"

subsection \<open>\<^verbatim>\<open>start\<close> and \<^verbatim>\<open>stop\<close>\<close>

definition start :: "env \<Rightarrow> string \<Rightarrow> world \<Rightarrow> (error + unit) \<times> world" where
  "start e audit_name w =
     (let w1 = log_info (''Starting audit session: '' @ audit_name) w;
          w2 = log_info ''Logging of activities and evidence capture simulated (Windows mode)'' w1
      in case generate_audit_file_log e audit_name ''start'' w2 of
           (Inl err, w3) \<Rightarrow> (Inl err, w3)
         | (Inr u, w3) \<Rightarrow>
             (let w4 = (if SCREENSHOTS e
                        then log_warning
                          ''Screenshot automation not supported natively on Windows in this version.'' w3
                        else w3);
                  w5 = (if GIT_AUTOCOMMIT e
                        then log_info ''Git auto-commit active (manual Windows scheduling required).'' w4
                        else w4);
                  w6 = log_info ''Audit session started. You can now perform your tasks.'' w5
              in (Inr (),
                  log_info (''Use '' @ quoted ''python audit.py stop <audit_name>''
                            @ '' to end the session.'') w6)))"

definition stop :: "env \<Rightarrow> string \<Rightarrow> world \<Rightarrow> (error + unit) \<times> world" where
  "stop e audit_name w =
     (let w1 = log_info (''Stopping audit session: '' @ audit_name) w in
      case generate_audit_file_log e audit_name ''stop'' w1 of
        (Inl err, w2) \<Rightarrow> (Inl err, w2)
      | (Inr u, w2) \<Rightarrow>
          (Inr (),
           log_info ''Audit stopped. All evidence logs and notes remain in the project folder.'' w2))"

subsection \<open>\<^verbatim>\<open>export\<close>\<close>

definition separator :: string where
  "separator = replicate 80 CHR ''=''"

fun read_files :: "env \<Rightarrow> world \<Rightarrow> string \<Rightarrow> string list \<Rightarrow> string \<Rightarrow> error + string" where
  "read_files e w root [] all_logs = Inr all_logs"
| "read_files e w root (file # files) all_logs =
     (if endswith file ''.log'' then
        (case read_text e w (join root file) of
           Inl err \<Rightarrow> Inl err
         | Inr txt \<Rightarrow>
             read_files e w root files
               (all_logs @ nl @ separator @ nl @ file @ nl @ separator @ nl @ txt))
      else read_files e w root files all_logs)"

fun read_walk :: "env \<Rightarrow> world \<Rightarrow> (string \<times> string list) list \<Rightarrow> string \<Rightarrow> error + string" where
  "read_walk e w [] all_logs = Inr all_logs"
| "read_walk e w ((root, files) # rest) all_logs =
     (case read_files e w root files all_logs of
        Inl err \<Rightarrow> Inl err
      | Inr all_logs' \<Rightarrow> read_walk e w rest all_logs')"

text \<open>The names that \<^verbatim>\<open>all_logs\<close> interpolates: those of the matched files.\<close>

definition matched_names :: "(string \<times> string list) list \<Rightarrow> string list" where
  "matched_names walk = filter (\<lambda>file. endswith file ''.log'') (concat (map snd walk))"

text \<open>
  The HTML file is opened, and so emptied, before the text is encoded: when the write
  raises, the file stays empty.
\<close>

definition export_shell_log :: "env \<Rightarrow> string \<Rightarrow> world \<Rightarrow> (error + unit) \<times> world" where
  "export_shell_log e audit_name w =
     (case get_fullpath e audit_name True w of
        Inl err \<Rightarrow> (Inl err, w)
      | Inr audit_path \<Rightarrow>
          (let logs_dir = join audit_path ''logs'';
               shell_dir = join logs_dir ''shell''
           in if \<not> path_exists w shell_dir
              then (Inr (), log_error (''No shell logs found in '' @ shell_dir) w)
              else
                (case read_walk e w (os_walk w shell_dir) [] of
                   Inl err \<Rightarrow> (Inl err, w)
                 | Inr all_logs \<Rightarrow>
                     (let html_file = join audit_path ''shell_log.html'' in
                      case open_out Truncate w html_file of
                        Inl err \<Rightarrow> (Inl err, w)
                      | Inr (f, w1) \<Rightarrow>
                          (case encoded (matched_names (os_walk w shell_dir))
                                  (''<html><body><pre>'' @ all_logs @ ''</pre></body></html>'') of
                             Inl err \<Rightarrow> (Inl err, w1)
                           | Inr body \<Rightarrow>
                               (Inr (),
                                log_info (''Exported audit logs to '' @ html_file)
                                  (fwrite f body w1)))))))"

section \<open>CLI entry point\<close>

text \<open>
  The entry point takes what \<^verbatim>\<open>parse_args\<close> returns: the action and the optional
  audit name. It returns the exit status of the process and the final world.
\<close>

definition truthy :: "string option \<Rightarrow> bool" where
  "truthy audit_name = (case audit_name of None \<Rightarrow> False | Some n \<Rightarrow> n \<noteq> [])"

definition none_name :: "world \<Rightarrow> (error + unit) \<times> world" where
  "none_name w =
     (Inl (TypeError ''expected str, bytes or os.PathLike object, not NoneType''), w)"

text \<open>The body of the \<^verbatim>\<open>try\<close> of the entry point.\<close>

definition run_action :: "env \<Rightarrow> string \<Rightarrow> string option \<Rightarrow> world \<Rightarrow> (error + unit) \<times> world" where
  "run_action e action audit_name w =
     (if action = ''init'' then
        (case audit_name of None \<Rightarrow> none_name w | Some n \<Rightarrow> init e n w)
      else if action = ''start'' then
        (case audit_name of None \<Rightarrow> none_name w | Some n \<Rightarrow> start e n w)
      else if action = ''stop'' then
        (case audit_name of None \<Rightarrow> none_name w | Some n \<Rightarrow> stop e n w)
      else if action = ''export'' then
        (case audit_name of None \<Rightarrow> none_name w | Some n \<Rightarrow> export_shell_log e n w)
      else if action = ''list'' then list_audits e w
      else (Inr (), w))"

definition main :: "env \<Rightarrow> string \<times> string option \<Rightarrow> world \<Rightarrow> nat \<times> world" where
  "main e args w =
     (let action = fst args; audit_name = snd args in
      if action \<notin> set [''init'', ''start'', ''stop'', ''export'', ''list''] then
        (1, print_help (log_error ''Invalid action. Use one of: init|start|stop|export|list'' w))
      else if action \<in> set [''init'', ''start'', ''stop'', ''export''] \<and> \<not> truthy audit_name then
        (1, log_error ''Specify an audit name.'' w)
      else
        (let audit_name' = (if truthy audit_name then map_option basename audit_name
                            else audit_name)
         in case run_action e action audit_name' w of
              (Inl err, w') \<Rightarrow> (0, log_error (str_of err) w')
            | (Inr u, w') \<Rightarrow> (0, w')))"

section \<open>Observing the file system\<close>

text \<open>What a later read of the bytes of a regular file at path \<open>p\<close> finds.\<close>

definition file_content :: "world \<Rightarrow> string \<Rightarrow> string option" where
  "file_content w p =
     (case stat w p of
        Inr (File x t) \<Rightarrow> Some x
      | Inr (Dir es) \<Rightarrow> None
      | Inr (Broken b) \<Rightarrow> None
      | Inl err \<Rightarrow> None)"

text \<open>The files of a walk, one pair (directory, name) each, in the order of the loops.\<close>

definition flat_walk :: "(string \<times> string list) list \<Rightarrow> (string \<times> string) list" where
  "flat_walk walk = concat (map (\<lambda>(root, files). map (Pair root) files) walk)"

text \<open>The text that \<^verbatim>\<open>export\<close> appends for one matched log.\<close>

definition log_block :: "env \<Rightarrow> world \<Rightarrow> string \<Rightarrow> string \<Rightarrow> string" where
  "log_block e w root file =
     nl @ separator @ nl @ file @ nl @ separator @ nl
     @ universal_newlines
         (decode_ignore (codec e)
            (case file_content w (join root file) of None \<Rightarrow> [] | Some x \<Rightarrow> x))"

text \<open>The names of the files (the entries that are not directories) of a tree are encodable.\<close>

fun files_encodable :: "node \<Rightarrow> bool"
  and entries_encodable :: "(string \<times> node) list \<Rightarrow> bool" where
  "files_encodable (Dir es) = entries_encodable es"
| "files_encodable (File x t) = True"
| "files_encodable (Broken b) = True"
| "entries_encodable [] = True"
| "entries_encodable ((n, m) # es) =
     ((if is_dir_node m then True else utf8_valid n) \<and> files_encodable m \<and> entries_encodable es)"

definition project_files_encodable :: "world \<Rightarrow> string \<Rightarrow> bool" where
  "project_files_encodable w p =
     (case stat w p of Inl err \<Rightarrow> False | Inr n \<Rightarrow> files_encodable n)"

datatype kind = KNone | KFile string nat | KDir | KBroken string

text \<open>What lies at a resolved path, without the entries of a directory.\<close>

definition kind_at :: "node \<Rightarrow> string list \<Rightarrow> kind" where
  "kind_at fs p =
     (case lookup fs p of
        None \<Rightarrow> KNone
      | Some (File x t) \<Rightarrow> KFile x t
      | Some (Dir es) \<Rightarrow> KDir
      | Some (Broken b) \<Rightarrow> KBroken b)"

text \<open>
  The path can be opened for writing: it resolves (every directory on the way to it
  exists) and names a regular file or nothing yet.
\<close>

definition writable_target :: "world \<Rightarrow> string \<Rightarrow> bool" where
  "writable_target w p =
     (case resolve w p of
        Inl e \<Rightarrow> False
      | Inr c \<Rightarrow>
          (case lookup (root_dir w) c of
             None \<Rightarrow> True
           | Some (File x t) \<Rightarrow> True
           | Some (Dir es) \<Rightarrow> False
           | Some (Broken b) \<Rightarrow> False))"

text \<open>
  \<open>w'\<close> is \<open>w\<close> but for the regular file at \<open>c\<close>, created or rewritten (and but
  for the output).
\<close>

definition file_update :: "world \<Rightarrow> string list \<Rightarrow> world \<Rightarrow> bool" where
  "file_update w c w' =
     (cwd w' = cwd w \<and> clock w' = clock w
      \<and> kind_at (root_dir w) c \<noteq> KDir
      \<and> (\<exists>x t. kind_at (root_dir w') c = KFile x t)
      \<and> (\<forall>q. q \<noteq> c \<longrightarrow> kind_at (root_dir w') q = kind_at (root_dir w) q))"

text \<open>What \<^verbatim>\<open>open\<close> leaves in the file before the first write.\<close>

definition opened_content :: "mode \<Rightarrow> world \<Rightarrow> string \<Rightarrow> string" where
  "opened_content m w p =
     (case m of
        Truncate \<Rightarrow> []
      | Append \<Rightarrow> (case file_content w p of None \<Rightarrow> [] | Some x \<Rightarrow> x))"

section \<open>The specification's reading of decoding\<close>

text \<open>
  The specification says that undecodable bytes are tolerated by substitution. This
  decoder follows those words (it is what \<^verbatim>\<open>errors='replace'\<close> does): each undecodable
  range is replaced by U+FFFD, in UTF-8 the bytes \<open>EF BF BD\<close>. The source does not call
  it; it is compared with \<open>decode_ignore\<close>.
\<close>

function decode_replace :: "codec \<Rightarrow> string \<Rightarrow> string" where
  "decode_replace dec [] = []"
| "decode_replace dec (b # bs) =
     (case dec (b # bs) of
        (Some t, n) \<Rightarrow> t @ decode_replace dec (drop (n - 1) bs)
      | (None, n) \<Rightarrow> [CHR 0xEF, CHR 0xBF, CHR 0xBD] @ decode_replace dec (drop (n - 1) bs))"
  by pat_completeness auto
termination
  by (relation "measure (\<lambda>(dec, bs). length bs)") auto

section \<open>A concrete installation\<close>

text \<open>
  A small world used to run the model: the root folder \<^verbatim>\<open>/srv/audits\<close> with the
  projects \<^verbatim>\<open>acme\<close>, \<^verbatim>\<open>bare\<close> and \<^verbatim>\<open>idle\<close>, a sibling folder \<^verbatim>\<open>/srv/logs\<close> outside the root, and the tool
  installed in \<^verbatim>\<open>/opt/tool\<close>. The codec is ASCII and git is not installed.
  \<open>sibling_world\<close> holds only the empty root folder and its sibling \<^verbatim>\<open>/srv/logs\<close>.
  In \<open>marker_world\<close> the project \<^verbatim>\<open>solo\<close> holds its marker file and nothing else. In
  \<open>escaped_world\<close> the project \<^verbatim>\<open>esc\<close> holds a dangling entry whose name is the
  single byte \<open>0xFF\<close>, which is not valid UTF-8.
\<close>

definition ascii_codec :: codec where
  "ascii_codec bs =
     (case bs of
        [] \<Rightarrow> (None, 0)
      | b # r \<Rightarrow> (if (of_char b :: nat) < 128 then (Some [b], 1) else (None, 1)))"

definition demo_project :: node where
  "demo_project =
     Dir [(''.audit'', File [] 5),
          (''logs'', Dir [(''shell'', Dir [(''a.log'', File [CHR ''A'', CHR 0xFF, CHR ''B''] 7)])]),
          (''gone'', Broken ''[Errno 2] No such file or directory''),
          (''notes.txt'', File ''hello'' 6),
          (''sub'', Dir [(''audit_file_list.txt'', File ''decoy'' 8)])]"

definition demo_bare :: node where
  "demo_bare = Dir [(''.audit'', File [] 5), (''logs'', Dir [])]"

definition demo_idle :: node where
  "demo_idle =
     Dir [(''.audit'', File [] 5),
          (''logs'', Dir [(''shell'', Dir [(''readme.txt'', File ''x'' 3)])]),
          (''shell_log.html'', File ''old export'' 2)]"

definition demo_fs :: node where
  "demo_fs =
     Dir [(''srv'', Dir [(''audits'', Dir [(''acme'', demo_project), (''bare'', demo_bare),
                                           (''idle'', demo_idle)]),
                         (''logs'', Dir [])]),
          (''opt'', Dir [(''tool'', Dir [(''skel'', Dir [(''.audit'', File [] 1),
                                                         (''logs'', Dir [])])])])]"

definition demo_world :: world where
  "demo_world = \<lparr>root_dir = demo_fs, cwd = [], clock = 100, term_out = []\<rparr>"

definition sibling_world :: world where
  "sibling_world =
     \<lparr>root_dir = Dir [(''srv'', Dir [(''audits'', Dir []), (''logs'', Dir [])])],
      cwd = [], clock = 100, term_out = []\<rparr>"


definition escaped_world :: world where
  "escaped_world =
     \<lparr>root_dir =
        Dir [(''srv'', Dir [(''audits'', Dir [(''esc'',
               Dir [(''.audit'', File [] 5),
                    ([CHR 0xFF], Broken ''[Errno 2] No such file or directory''),
                    (''notes.txt'', File ''hello'' 6),
                    (''logs'', Dir [])])])])],
      cwd = [], clock = 100, term_out = []\<rparr>"

definition demo_env :: env where
  "demo_env =
     \<lparr>AUDIT_FOLDER = ''/srv/audits'', SCREENSHOTS = False, GIT_AUTOCOMMIT = True,
      INSTALL_FOLDER = ''/opt/tool'', ctime = (\<lambda>t. ''T'' @ digits t), codec = ascii_codec,
      check_output = (\<lambda>args w. (Inl (Exception ''git: not found''), w))\<rparr>"

section \<open>Properties\<close>

subsection \<open>The concrete installation, evaluated\<close>

lemma demo_root_exists: "path_exists demo_world (AUDIT_FOLDER demo_env)"
  by code_simp

lemma demo_acme_exists: "path_exists demo_world (join (AUDIT_FOLDER demo_env) ''acme'')"
  by code_simp

lemma demo_bare_exists: "path_exists demo_world (join (AUDIT_FOLDER demo_env) ''bare'')"
  by code_simp

lemma demo_bare_no_shell:
  "\<not> path_exists demo_world (join (join (join (AUDIT_FOLDER demo_env) ''bare'') ''logs'') ''shell'')"
  by code_simp


lemma demo_idle_exists: "path_exists demo_world (join (AUDIT_FOLDER demo_env) ''idle'')"
  by code_simp

lemma demo_idle_shell_exists:
  "path_exists demo_world (join (join (join (AUDIT_FOLDER demo_env) ''idle'') ''logs'') ''shell'')"
  by code_simp

lemma demo_idle_no_logs:
  "\<forall>(root, files) \<in> set (os_walk demo_world
       (join (join (join (AUDIT_FOLDER demo_env) ''idle'') ''logs'') ''shell'')).
     \<forall>file \<in> set files. \<not> endswith file ''.log''"
  by code_simp

lemma demo_idle_html_writable:
  "writable_target demo_world (join (join (AUDIT_FOLDER demo_env) ''idle'') ''shell_log.html'')"
  by code_simp

lemma demo_idle_old_export:
  "file_content demo_world ''/srv/audits/idle/shell_log.html'' = Some ''old export''"
  by code_simp

lemma demo_acme_shell_exists:
  "path_exists demo_world (join (join (join (AUDIT_FOLDER demo_env) ''acme'') ''logs'') ''shell'')"
  by code_simp

lemma demo_fresh_absent: "\<not> path_exists demo_world (join (AUDIT_FOLDER demo_env) ''fresh'')"
  by code_simp

lemma demo_fresh_copy:
  "copytree demo_world (join (INSTALL_FOLDER demo_env) ''skel'') (join (AUDIT_FOLDER demo_env) ''fresh'')
     = (Inr (), snd (copytree demo_world (join (INSTALL_FOLDER demo_env) ''skel'')
                       (join (AUDIT_FOLDER demo_env) ''fresh'')))"
  by code_simp

lemma demo_git_autocommit: "GIT_AUTOCOMMIT demo_env"
  by (simp add: demo_env_def)

lemma demo_git_fails:
  "check_output demo_env args v = (Inl (Exception ''git: not found''), v)"
  by (simp add: demo_env_def)



lemma demo_acme_logs:
  "filter (\<lambda>(root, file). endswith file ''.log'')
     (flat_walk (os_walk demo_world
        (join (join (join (AUDIT_FOLDER demo_env) ''acme'') ''logs'') ''shell'')))
   = [(''/srv/audits/acme/logs/shell'', ''a.log'')]"
  by code_simp

lemma demo_acme_log_bytes:
  "file_content demo_world (join ''/srv/audits/acme/logs/shell'' ''a.log'')
     = Some [CHR ''A'', CHR 0xFF, CHR ''B'']"
  by code_simp

lemma demo_acme_log_name: "utf8_valid ''a.log''"
  by code_simp

lemma demo_acme_html_writable:
  "writable_target demo_world (join (join (AUDIT_FOLDER demo_env) ''acme'') ''shell_log.html'')"
  by code_simp

lemma demo_acme_block:
  "nl @ separator @ nl @ ''a.log'' @ nl @ separator @ nl
   @ universal_newlines (decode_ignore (codec demo_env) [CHR ''A'', CHR 0xFF, CHR ''B''])
   = nl @ separator @ nl @ ''a.log'' @ nl @ separator @ nl @ ''AB''"
  by code_simp



subsection \<open>Lookups and updates of the tree\<close>

lemma lookup_append:
  "lookup fs (p @ q) = (case lookup fs p of None \<Rightarrow> None | Some n \<Rightarrow> lookup n q)"
proof (induction p arbitrary: fs)
  case Nil
  show ?case by simp
next
  case (Cons a p)
  show ?case by (cases fs) (auto simp: Cons split: option.splits)
qed

lemma lookup_nondir_below:
  assumes "kind_at fs c \<noteq> KDir" and "q \<noteq> []"
  shows "lookup fs (c @ q) = None"
proof -
  obtain a q' where q: "q = a # q'" using assms(2) by (cases q) auto
  show ?thesis using assms(1)
    by (auto simp: lookup_append kind_at_def q split: option.splits node.splits)
qed

lemma kind_dir_prefix:
  assumes "kind_at fs (p @ q) = KDir"
  shows "kind_at fs p = KDir"
proof (cases "q = []")
  case True
  then show ?thesis using assms by simp
next
  case False
  show ?thesis
  proof (rule ccontr)
    assume "kind_at fs p \<noteq> KDir"
    then have "lookup fs (p @ q) = None" using False by (rule lookup_nondir_below)
    then show False using assms by (simp add: kind_at_def)
  qed
qed

lemma put_snoc_Dir:
  "put (Dir es) (a # d @ [x]) new =
     (case map_of es a of
        None \<Rightarrow> Dir es
      | Some m \<Rightarrow> Dir (AList.update a (put m (d @ [x]) new) es))"
  by (cases d) (auto split: option.splits)

lemma lookup_put_below:
  "kind_at fs d = KDir \<Longrightarrow> lookup (put fs (d @ [x]) new) (d @ x # q) = lookup new q"
proof (induction d arbitrary: fs)
  case Nil
  then show ?case
    by (cases fs) (auto simp: kind_at_def update_conv')
next
  case (Cons a d)
  then obtain es where fs: "fs = Dir es"
    by (cases fs) (auto simp: kind_at_def)
  from Cons.prems obtain m where m: "map_of es a = Some m" and md: "kind_at m d = KDir"
    by (auto simp: fs kind_at_def split: option.splits)
  show ?case using Cons.IH [OF md]
    by (simp add: fs put_snoc_Dir m update_conv')
qed

lemma kind_put_other:
  "kind_at fs d = KDir \<Longrightarrow> \<not> prefix (d @ [x]) p \<Longrightarrow>
   kind_at (put fs (d @ [x]) new) p = kind_at fs p"
proof (induction d arbitrary: fs p)
  case Nil
  then obtain es where fs: "fs = Dir es"
    by (cases fs) (auto simp: kind_at_def)
  show ?case using Nil.prems(2)
    by (cases p) (auto simp: fs kind_at_def update_conv')
next
  case (Cons a d)
  then obtain es where fs: "fs = Dir es"
    by (cases fs) (auto simp: kind_at_def)
  from Cons.prems obtain m where m: "map_of es a = Some m" and md: "kind_at m d = KDir"
    by (auto simp: fs kind_at_def split: option.splits)
  show ?case
  proof (cases p)
    case Nil
    then show ?thesis by (simp add: fs put_snoc_Dir m kind_at_def)
  next
    case (Cons b p')
    show ?thesis
    proof (cases "b = a")
      case True
      then have np: "\<not> prefix (d @ [x]) p'" using Cons.prems(2) Cons by simp
      have "kind_at (put m (d @ [x]) new) p' = kind_at m p'"
        using Cons.IH [OF md np] .
      then show ?thesis
        by (simp add: fs put_snoc_Dir m Cons True kind_at_def update_conv')
    next
      case False
      then show ?thesis
        by (simp add: fs put_snoc_Dir m Cons kind_at_def update_conv')
    qed
  qed
qed

lemma kind_at_simps:
  "(kind_at fs p = KNone) = (lookup fs p = None)"
  "(kind_at fs p = KFile x t) = (lookup fs p = Some (File x t))"
  "(kind_at fs p = KDir) = (\<exists>es. lookup fs p = Some (Dir es))"
  "(kind_at fs p = KBroken b) = (lookup fs p = Some (Broken b))"
  by (auto simp: kind_at_def split: option.splits node.splits)

lemma kind_dir_butlast:
  assumes "kind_at fs cur = KDir"
  shows "kind_at fs (butlast cur) = KDir"
proof (cases "cur = []")
  case True
  then show ?thesis using assms by simp
next
  case False
  then have "cur = butlast cur @ [last cur]" by simp
  then have "kind_at fs (butlast cur @ [last cur]) = KDir" using assms by simp
  then show ?thesis by (rule kind_dir_prefix)
qed

lemma put_file_kind:
  assumes "(\<exists>x0 t0. kind_at fs c = KFile x0 t0)
           \<or> (kind_at fs c = KNone \<and> c \<noteq> [] \<and> kind_at fs (butlast c) = KDir)"
  shows "kind_at (put fs c (File x t)) q = (if q = c then KFile x t else kind_at fs q)"
proof (cases "c = []")
  case True
  then have f: "\<exists>x0 t0. fs = File x0 t0" using assms by (auto simp: kind_at_simps)
  show ?thesis
  proof (cases q)
    case Nil
    then show ?thesis using True by (simp add: kind_at_def)
  next
    case (Cons a q')
    then show ?thesis using True f by (auto simp: kind_at_def)
  qed
next
  case False
  then have c: "c = butlast c @ [last c]" by simp
  have nd: "kind_at fs c \<noteq> KDir" using assms by auto
  have pd: "kind_at fs (butlast c) = KDir"
  proof (rule ccontr)
    assume a: "kind_at fs (butlast c) \<noteq> KDir"
    have "lookup fs (butlast c @ [last c]) = None"
      by (rule lookup_nondir_below [OF a]) simp
    then have "kind_at fs c = KNone" using c by (simp add: kind_at_def)
    then show False using assms a by auto
  qed
  show ?thesis
  proof (cases "prefix c q")
    case True
    then obtain r where q: "q = c @ r" by (auto simp: prefix_def)
    show ?thesis
    proof (cases r)
      case Nil
      have "lookup (put fs (butlast c @ [last c]) (File x t)) (butlast c @ last c # []) = lookup (File x t) []"
        using pd by (rule lookup_put_below)
      then have "lookup (put fs c (File x t)) c = Some (File x t)" using c by simp
      then show ?thesis using q Nil by (simp add: kind_at_def)
    next
      case (Cons a r')
      have "lookup (put fs (butlast c @ [last c]) (File x t)) (butlast c @ last c # r) = lookup (File x t) r"
        using pd by (rule lookup_put_below)
      then have "lookup (put fs c (File x t)) (c @ r) = None"
        using c Cons by (metis append.assoc append_Cons append_Nil lookup.simps(3))
      moreover have "lookup fs (c @ r) = None"
        by (rule lookup_nondir_below [OF nd]) (simp add: Cons)
      ultimately show ?thesis using q Cons by (simp add: kind_at_def)
    qed
  next
    case False
    then have "\<not> prefix (butlast c @ [last c]) q" using c by simp
    then have "kind_at (put fs (butlast c @ [last c]) (File x t)) q = kind_at fs q"
      using pd kind_put_other by blast
    then show ?thesis using c False by auto
  qed
qed

lemma mkdir_at_ok:
  assumes "mkdir_at fs c new = Inr fs'"
  shows "lookup fs' c = Some new"
    and "kind_at fs p = KDir \<Longrightarrow> kind_at fs' p = KDir"
proof -
  from assms have n: "lookup fs c = None" and ne: "c \<noteq> []"
    and pd: "kind_at fs (butlast c) = KDir" and fs': "fs' = put fs c new"
    by (auto simp: mkdir_at_def kind_at_def split: option.splits if_splits node.splits)
  from ne have c: "c = butlast c @ [last c]" by simp
  have "lookup (put fs (butlast c @ [last c]) new) (butlast c @ last c # []) = lookup new []"
    using pd by (rule lookup_put_below)
  then show "lookup fs' c = Some new" using c fs' by simp
  show "kind_at fs' p = KDir" if d: "kind_at fs p = KDir"
  proof -
    have np: "\<not> prefix c p"
    proof
      assume "prefix c p"
      then obtain r where "p = c @ r" by (auto simp: prefix_def)
      then have "lookup fs p = None" using n by (simp add: lookup_append)
      then show False using d by (simp add: kind_at_def)
    qed
    then have "\<not> prefix (butlast c @ [last c]) p" using c by simp
    then have "kind_at (put fs (butlast c @ [last c]) new) p = kind_at fs p"
      using pd kind_put_other by blast
    then show ?thesis using c fs' d by simp
  qed
qed

subsection \<open>Path resolution\<close>

lemma namei_Cons_kind:
  "namei fs cur (c # cs) =
     (case kind_at fs cur of
        KNone \<Rightarrow> Inl enoent
      | KFile x t \<Rightarrow> Inl enotdir
      | KBroken b \<Rightarrow> Inl b
      | KDir \<Rightarrow> namei fs (step_comp cur c) cs)"
  by (auto simp: kind_at_def split: option.splits node.splits)

lemma namei_mono:
  assumes "\<And>p. kind_at fs p = KDir \<Longrightarrow> kind_at fs' p = KDir"
  shows "namei fs cur comps = Inr c \<Longrightarrow> namei fs' cur comps = Inr c"
proof (induction comps arbitrary: cur)
  case Nil
  then show ?case by simp
next
  case (Cons x comps)
  from Cons.prems have d: "kind_at fs cur = KDir"
    by (auto simp: namei_Cons_kind simp del: namei.simps split: kind.splits)
  with Cons.prems have "namei fs (step_comp cur x) comps = Inr c"
    by (simp add: namei_Cons_kind del: namei.simps)
  then have "namei fs' (step_comp cur x) comps = Inr c" by (rule Cons.IH)
  then show ?case using assms [OF d] by (simp add: namei_Cons_kind del: namei.simps)
qed

lemma namei_append:
  "namei fs cur (xs @ ys) = (case namei fs cur xs of Inl e \<Rightarrow> Inl e | Inr c \<Rightarrow> namei fs c ys)"
proof (induction xs arbitrary: cur)
  case Nil
  show ?case by simp
next
  case (Cons x xs)
  show ?case
    by (cases "kind_at fs cur") (simp_all add: namei_Cons_kind Cons del: namei.simps)
qed

lemma step_comp_target:
  assumes "kind_at fs cur = KDir"
  shows "kind_at fs (step_comp cur x) = KDir
         \<or> (step_comp cur x \<noteq> [] \<and> kind_at fs (butlast (step_comp cur x)) = KDir)"
  using assms kind_dir_butlast [OF assms] by (auto simp: step_comp_def)

lemma namei_target:
  "namei fs cur comps = Inr c \<Longrightarrow> comps \<noteq> [] \<Longrightarrow>
   kind_at fs c = KDir \<or> (c \<noteq> [] \<and> kind_at fs (butlast c) = KDir)"
proof (induction comps arbitrary: cur)
  case Nil
  then show ?case by simp
next
  case (Cons x comps)
  from Cons.prems have d: "kind_at fs cur = KDir"
    by (auto simp: namei_Cons_kind simp del: namei.simps split: kind.splits)
  with Cons.prems have n: "namei fs (step_comp cur x) comps = Inr c"
    by (simp add: namei_Cons_kind del: namei.simps)
  show ?case
  proof (cases "comps = []")
    case True
    then have "c = step_comp cur x" using n by simp
    then show ?thesis using step_comp_target [OF d] by simp
  next
    case False
    then show ?thesis using Cons.IH [OF n] by simp
  qed
qed

lemma split_sep_nonempty: "split_sep p \<noteq> []"
  by (induction p) (auto split: list.splits)

lemma split_sep_no_sep: "CHR ''/'' \<notin> set b \<Longrightarrow> split_sep b = [b]"
  by (induction b) auto

lemma split_sep_append:
  "CHR ''/'' \<notin> set b \<Longrightarrow> split_sep (a @ CHR ''/'' # b) = split_sep a @ [b]"
proof (induction a)
  case Nil
  then show ?case by (simp add: split_sep_no_sep)
next
  case (Cons c a)
  then show ?case
    by (cases "split_sep a") (auto simp: split_sep_nonempty)
qed

lemma resolve_target:
  assumes "resolve w p = Inr c"
  shows "kind_at (root_dir w) c = KDir \<or> (c \<noteq> [] \<and> kind_at (root_dir w) (butlast c) = KDir)"
proof -
  from assms have "namei (root_dir w) (if hd p = CHR ''/'' then [] else cwd w) (split_sep p) = Inr c"
    by (auto simp: resolve_def split: if_splits)
  then show ?thesis using split_sep_nonempty by (rule namei_target)
qed

lemma resolve_mono:
  assumes "\<And>p. kind_at (root_dir w) p = KDir \<Longrightarrow> kind_at (root_dir w') p = KDir"
    and "cwd w' = cwd w" and "resolve w p = Inr c"
  shows "resolve w' p = Inr c"
proof -
  from assms(3) have ne: "p \<noteq> []" by (auto simp: resolve_def)
  from assms(3) have "namei (root_dir w) (if hd p = CHR ''/'' then [] else cwd w) (split_sep p) = Inr c"
    by (auto simp: resolve_def split: if_splits)
  then have "namei (root_dir w') (if hd p = CHR ''/'' then [] else cwd w) (split_sep p) = Inr c"
    using assms(1) namei_mono by blast
  then show ?thesis using ne assms(2) by (auto simp: resolve_def split: if_splits)
qed

lemma path_exists_iff:
  "path_exists w p =
     (\<exists>c. resolve w p = Inr c
          \<and> (kind_at (root_dir w) c = KDir \<or> (\<exists>x t. kind_at (root_dir w) c = KFile x t)))"
  by (auto simp: path_exists_def stat_def kind_at_def split: sum.splits option.splits node.splits)

lemma file_content_iff:
  "(file_content w p = Some x) =
     (\<exists>c t. resolve w p = Inr c \<and> kind_at (root_dir w) c = KFile x t)"
  by (auto simp: file_content_def stat_def kind_at_def split: sum.splits option.splits node.splits)

lemma writable_target_iff:
  "writable_target w p =
     (\<exists>c. resolve w p = Inr c
          \<and> (kind_at (root_dir w) c = KNone \<or> (\<exists>x t. kind_at (root_dir w) c = KFile x t)))"
  by (auto simp: writable_target_def kind_at_def split: sum.splits option.splits node.splits)

lemma join_sep_free:
  assumes "root \<noteq> []" and "CHR ''/'' \<notin> set name"
  shows "join root name = (if last root = CHR ''/'' then butlast root else root) @ CHR ''/'' # name"
proof -
  have h: "\<not> (name \<noteq> [] \<and> hd name = CHR ''/'')" using assms(2) by (cases name) auto
  have "root = butlast root @ [last root]" using assms(1) by simp
  then have "last root = CHR ''/'' \<Longrightarrow> root @ name = butlast root @ CHR ''/'' # name"
    by (metis append.assoc append_Cons append_Nil)
  then show ?thesis using assms(1) h by (auto simp: join_def)
qed

lemma project_exists_root_exists:
  assumes ne: "root \<noteq> []" and sf: "CHR ''/'' \<notin> set name"
    and ex: "path_exists w (join root name)"
  shows "path_exists w root"
proof -
  let ?r0 = "if last root = CHR ''/'' then butlast root else root"
  let ?start = "if hd root = CHR ''/'' then [] else cwd w"
  have j: "join root name = ?r0 @ CHR ''/'' # name" using ne sf by (rule join_sep_free)
  have "\<not> (name \<noteq> [] \<and> hd name = CHR ''/'')" using sf by (cases name) auto
  then have "\<exists>x. join root name = root @ x" using ne by (auto simp: join_def)
  then have hdj: "hd (join root name) = hd root" using ne by auto
  from ex obtain c' where "resolve w (join root name) = Inr c'"
    by (auto simp: path_exists_iff)
  then have "namei (root_dir w) (if hd (join root name) = CHR ''/'' then [] else cwd w)
               (split_sep (join root name)) = Inr c'"
    by (auto simp: resolve_def split: if_splits)
  then have "namei (root_dir w) ?start (split_sep (join root name)) = Inr c'"
    by (simp only: hdj)
  moreover have "split_sep (join root name) = split_sep ?r0 @ [name]"
    unfolding j using sf by (rule split_sep_append)
  ultimately have "namei (root_dir w) ?start (split_sep ?r0 @ [name]) = Inr c'"
    by simp
  then obtain c where c: "namei (root_dir w) ?start (split_sep ?r0) = Inr c"
    and n: "namei (root_dir w) c [name] = Inr c'"
    by (auto simp: namei_append split: sum.splits)
  from n have d: "kind_at (root_dir w) c = KDir"
    by (auto simp: namei_Cons_kind simp del: namei.simps split: kind.splits)
  have "resolve w root = Inr c"
  proof (cases "last root = CHR ''/''")
    case True
    then have "root = butlast root @ CHR ''/'' # []" using ne
      by (metis append_butlast_last_id)
    then have "split_sep root = split_sep (butlast root) @ [[]]"
      using split_sep_append [of "[]" "butlast root"] by simp
    then have "namei (root_dir w) ?start (split_sep root) = namei (root_dir w) c [[]]"
      using c True by (simp add: namei_append)
    also have "\<dots> = Inr c" using d by (auto simp: step_comp_def kind_at_simps)
    finally show ?thesis using ne by (simp add: resolve_def)
  next
    case False
    then show ?thesis using c ne by (simp add: resolve_def)
  qed
  then show ?thesis using d by (auto simp: path_exists_iff)
qed

subsection \<open>Writing a regular file\<close>

lemma file_update_dirs:
  assumes "file_update w c w'"
  shows "(kind_at (root_dir w') p = KDir) = (kind_at (root_dir w) p = KDir)"
  using assms by (cases "p = c") (auto simp: file_update_def)

lemma file_update_resolve:
  assumes "file_update w c w'"
  shows "(resolve w' p = Inr d) = (resolve w p = Inr d)"
proof
  assume "resolve w' p = Inr d"
  then show "resolve w p = Inr d"
    using assms file_update_dirs [OF assms] by (intro resolve_mono [of w' w]) (auto simp: file_update_def)
next
  assume "resolve w p = Inr d"
  then show "resolve w' p = Inr d"
    using assms file_update_dirs [OF assms] by (intro resolve_mono [of w w']) (auto simp: file_update_def)
qed

lemma file_update_trans:
  assumes "file_update w c w1" and "file_update w1 c w2"
  shows "file_update w c w2"
  using assms by (auto simp: file_update_def)




lemma open_out_ok:
  assumes "writable_target w p"
  shows "\<exists>c w1 t. resolve w p = Inr c \<and> open_out m w p = Inr (c, w1) \<and> file_update w c w1
           \<and> term_out w1 = term_out w
           \<and> kind_at (root_dir w1) c = KFile (opened_content m w p) t"
proof -
  from assms obtain c where c: "resolve w p = Inr c"
    and k: "kind_at (root_dir w) c = KNone \<or> (\<exists>x t. kind_at (root_dir w) c = KFile x t)"
    by (auto simp: writable_target_iff)
  have nd: "kind_at (root_dir w) c \<noteq> KDir" using k by auto
  have tgt: "(\<exists>x0 t0. kind_at (root_dir w) c = KFile x0 t0)
           \<or> (kind_at (root_dir w) c = KNone \<and> c \<noteq> [] \<and> kind_at (root_dir w) (butlast c) = KDir)"
    using k resolve_target [OF c] by auto
  note pk = put_file_kind [OF tgt]
  from k show ?thesis
  proof
    assume n: "kind_at (root_dir w) c = KNone"
    then have fc: "file_content w p = None"
      using c by (auto simp: file_content_def stat_def kind_at_simps)
    let ?w1 = "w\<lparr>root_dir := put (root_dir w) c (File [] (clock w))\<rparr>"
    have o: "open_out m w p = Inr (c, ?w1)"
      using c n by (simp add: open_out_def kind_at_simps)
    have fu: "file_update w c ?w1" using nd pk by (simp add: file_update_def)
    have "kind_at (root_dir ?w1) c = KFile (opened_content m w p) (clock w)"
      using pk fc by (simp add: opened_content_def split: mode.splits)
    then show ?thesis using c o fu by (intro exI [of _ c] exI [of _ ?w1] exI [of _ "clock w"]) simp
  next
    assume "\<exists>x t. kind_at (root_dir w) c = KFile x t"
    then obtain x t where f: "kind_at (root_dir w) c = KFile x t" by blast
    then have fc: "file_content w p = Some x"
      using c by (auto simp: file_content_iff)
    show ?thesis
    proof (cases m)
      case Append
      have o: "open_out m w p = Inr (c, w)"
        using c f Append by (simp add: open_out_def kind_at_simps)
      have fu: "file_update w c w" using nd f by (simp add: file_update_def)
      have "kind_at (root_dir w) c = KFile (opened_content m w p) t"
        using f fc Append by (simp add: opened_content_def)
      then show ?thesis using c o fu by (intro exI [of _ c] exI [of _ w] exI [of _ t]) simp
    next
      case Truncate
      let ?w1 = "w\<lparr>root_dir := put (root_dir w) c (File [] (clock w))\<rparr>"
      have o: "open_out m w p = Inr (c, ?w1)"
        using c f Truncate by (simp add: open_out_def kind_at_simps)
      have fu: "file_update w c ?w1" using nd pk by (simp add: file_update_def)
      have "kind_at (root_dir ?w1) c = KFile (opened_content m w p) (clock w)"
        using pk Truncate by (simp add: opened_content_def)
      then show ?thesis using c o fu by (intro exI [of _ c] exI [of _ ?w1] exI [of _ "clock w"]) simp
    qed
  qed
qed

lemma fwrite_ok:
  assumes "kind_at (root_dir w1) c = KFile x t"
  shows "file_update w1 c (fwrite c txt w1)
         \<and> term_out (fwrite c txt w1) = term_out w1
         \<and> kind_at (root_dir (fwrite c txt w1)) c = KFile (x @ txt) (clock w1)"
proof -
  have tgt: "(\<exists>x0 t0. kind_at (root_dir w1) c = KFile x0 t0)
           \<or> (kind_at (root_dir w1) c = KNone \<and> c \<noteq> [] \<and> kind_at (root_dir w1) (butlast c) = KDir)"
    using assms by auto
  note pk = put_file_kind [OF tgt]
  have fw: "fwrite c txt w1 = w1\<lparr>root_dir := put (root_dir w1) c (File (x @ txt) (clock w1))\<rparr>"
    using assms by (simp add: fwrite_def kind_at_simps)
  show ?thesis using assms pk by (simp add: fw file_update_def)
qed

subsection \<open>Output does not change the file system\<close>

lemma resolve_term_out [simp]: "resolve (w\<lparr>term_out := out\<rparr>) p = resolve w p"
  by (simp add: resolve_def)

lemma stat_term_out [simp]: "stat (w\<lparr>term_out := out\<rparr>) p = stat w p"
  by (simp add: stat_def split: sum.splits)

lemma path_exists_term_out [simp]: "path_exists (w\<lparr>term_out := out\<rparr>) p = path_exists w p"
  by (simp add: path_exists_def)

lemma file_content_term_out [simp]: "file_content (w\<lparr>term_out := out\<rparr>) p = file_content w p"
  by (simp add: file_content_def)

lemma writable_target_term_out [simp]:
  "writable_target (w\<lparr>term_out := out\<rparr>) p = writable_target w p"
  by (simp add: writable_target_def split: sum.splits)

lemma header_writes_term_out [simp]:
  "header_writes e (w\<lparr>term_out := out\<rparr>) n m = header_writes e w n m"
  by (simp add: header_writes_def)

lemma file_update_from_term_out:
  "file_update (w\<lparr>term_out := out\<rparr>) c w' = file_update w c w'"
  by (simp add: file_update_def)

subsection \<open>Name sanitisation\<close>

lemma basename_no_sep: "CHR ''/'' \<notin> set (basename p)"
proof -
  have "\<forall>c \<in> set (takeWhile (\<lambda>c. c \<noteq> CHR ''/'') (rev p)). c \<noteq> CHR ''/''"
    using set_takeWhileD by fastforce
  then show ?thesis by (auto simp: basename_def)
qed

lemma main_sanitises:
  assumes "action \<in> set [''init'', ''start'', ''stop'', ''export'']" and "n \<noteq> []"
  shows "main e (action, Some n) w =
           (case run_action e action (Some (basename n)) w of
              (Inl err, w') \<Rightarrow> (0, log_error (str_of err) w')
            | (Inr u, w') \<Rightarrow> (0, w'))"
  using assms by (auto simp: main_def truthy_def)

text \<open>
  C1. The dispatcher reduces the name to its final segment, but the final segment
  \<^verbatim>\<open>..\<close> is left as it is: \<^verbatim>\<open>start ..\<close> resolves the project path to the parent
  of the root folder and creates the inventory log \<^verbatim>\<open>/srv/logs/audit_file_list.txt\<close>,
  a file outside the root \<^verbatim>\<open>/srv/audits\<close> (whose resolved path does not start with
  the resolved path of the root).
\<close>

theorem dotdot_start_writes_outside_root:
  "basename ''..'' = ''..''
   \<and> resolve sibling_world (AUDIT_FOLDER demo_env) = Inr [''srv'', ''audits'']
   \<and> get_fullpath demo_env (basename ''..'') True sibling_world = Inr ''/srv/audits/..''
   \<and> resolve sibling_world ''/srv/audits/..'' = Inr [''srv'']
   \<and> file_content sibling_world ''/srv/logs/audit_file_list.txt'' = None
   \<and> resolve (snd (main demo_env (''start'', Some ''..'') sibling_world))
         ''/srv/logs/audit_file_list.txt'' = Inr [''srv'', ''logs'', ''audit_file_list.txt'']
   \<and> file_content (snd (main demo_env (''start'', Some ''..'') sibling_world))
         ''/srv/logs/audit_file_list.txt''
       = Some (nl @ ''=== Audit File Inventory (START SESSION) ==='' @ nl
               @ ''Audit: ..'' @ nl @ ''Generated: T100'' @ nl @ nl)
   \<and> \<not> prefix [''srv'', ''audits''] [''srv'', ''logs'', ''audit_file_list.txt'']"
  by code_simp

subsection \<open>Exit status\<close>

lemma main_error_exit_status:
  assumes "action \<in> set [''init'', ''start'', ''stop'', ''export'', ''list'']"
    and "action = ''list'' \<or> truthy audit_name"
    and "run_action e action (if truthy audit_name then map_option basename audit_name
                             else audit_name) w = (Inl err, w')"
  shows "main e (action, audit_name) w = (0, log_error (str_of err) w')"
  using assms by (auto simp: main_def)

text \<open>
  C2. When the dispatched operation raises, the entry point prints the error and falls
  off the end of the script: the exit status is 0, not 1 (for every action:
  \<open>main_error_exit_status\<close>). Here \<^verbatim>\<open>init acme\<close> on the existing project
  \<^verbatim>\<open>acme\<close>.
\<close>

theorem init_error_exit_status_zero:
  "main demo_env (''init'', Some ''acme'') demo_world =
     (0, demo_world\<lparr>term_out :=
           [Colored ''[X] Audit folder already exists: /srv/audits/acme'' ''red'']\<rparr>)"
  by code_simp

subsection \<open>\<^verbatim>\<open>init\<close> on an existing project\<close>

text \<open>
  C3. When the root folder exists and the project path already exists, \<^verbatim>\<open>init\<close>
  raises the already-exists error and returns the world as it found it: no file, no
  directory and no output has changed. (For a name without a separator, which is what
  the entry point passes, and a non-empty root folder, the root folder exists as soon
  as the project path does: \<open>project_exists_root_exists\<close>.)
\<close>

theorem init_existing_target:
  assumes "path_exists w (AUDIT_FOLDER e)"
    and "path_exists w (join (AUDIT_FOLDER e) audit_name)"
  shows "init e audit_name w =
           (Inl (Exception (''Audit folder already exists: ''
                            @ join (AUDIT_FOLDER e) audit_name)), w)"
  using assms by (simp add: init_def get_fullpath_def)

theorem init_existing_target_witness:
  "path_exists demo_world (AUDIT_FOLDER demo_env)
   \<and> path_exists demo_world (join (AUDIT_FOLDER demo_env) ''acme'')
   \<and> init demo_env ''acme'' demo_world =
       (Inl (Exception ''Audit folder already exists: /srv/audits/acme''), demo_world)"
  using init_existing_target [OF demo_root_exists demo_acme_exists]
    demo_root_exists demo_acme_exists
  by (simp add: join_def demo_env_def)

lemma init_existing_project_sanitised:
  assumes "AUDIT_FOLDER e \<noteq> []"
    and "path_exists w (join (AUDIT_FOLDER e) (basename n))"
  shows "init e (basename n) w =
           (Inl (Exception (''Audit folder already exists: ''
                            @ join (AUDIT_FOLDER e) (basename n))), w)"
proof -
  have "path_exists w (AUDIT_FOLDER e)"
    using assms(1) basename_no_sep assms(2) by (rule project_exists_root_exists)
  then show ?thesis using assms(2) by (simp add: init_def get_fullpath_def)
qed

subsection \<open>\<^verbatim>\<open>init\<close> and the version-control hook\<close>

lemma makedirs_walk_mono:
  "makedirs_walk fs cur comps = (r, fs1) \<Longrightarrow> kind_at fs p = KDir \<Longrightarrow> kind_at fs1 p = KDir"
proof (induction comps arbitrary: fs cur)
  case Nil
  then show ?case by simp
next
  case (Cons x comps)
  show ?case
  proof (cases "kind_at fs cur")
    case KNone
    then have l: "lookup fs cur = None" by (simp add: kind_at_simps)
    show ?thesis
    proof (cases "mkdir_at fs cur (Dir [])")
      case (Inl err)
      then show ?thesis using Cons.prems l by simp
    next
      case (Inr fs')
      then have w: "makedirs_walk fs' (step_comp cur x) comps = (r, fs1)"
        using Cons.prems(1) l by simp
      have "kind_at fs' p = KDir" using mkdir_at_ok(2) [OF Inr] Cons.prems(2) by blast
      with Cons.IH [OF w] show ?thesis by blast
    qed
  next
    case (KFile y t)
    then show ?thesis using Cons.prems by (auto simp: kind_at_simps)
  next
    case KDir
    then obtain es where "lookup fs cur = Some (Dir es)" by (auto simp: kind_at_simps)
    then have "makedirs_walk fs (step_comp cur x) comps = (r, fs1)"
      using Cons.prems(1) by simp
    from Cons.IH [OF this Cons.prems(2)] show ?thesis .
  next
    case (KBroken b)
    then show ?thesis using Cons.prems by (auto simp: kind_at_simps)
  qed
qed

lemma makedirs_walk_namei:
  "makedirs_walk fs cur comps = (Inr c, fs1) \<Longrightarrow> namei fs1 cur comps = Inr c"
proof (induction comps arbitrary: fs cur)
  case Nil
  then show ?case by simp
next
  case (Cons x comps)
  show ?case
  proof (cases "kind_at fs cur")
    case KNone
    then have l: "lookup fs cur = None" by (simp add: kind_at_simps)
    show ?thesis
    proof (cases "mkdir_at fs cur (Dir [])")
      case (Inl err)
      then show ?thesis using Cons.prems l by simp
    next
      case (Inr fs')
      then have w: "makedirs_walk fs' (step_comp cur x) comps = (Inr c, fs1)"
        using Cons.prems(1) l by simp
      have "kind_at fs' cur = KDir" using mkdir_at_ok(1) [OF Inr] by (simp add: kind_at_def)
      then have "kind_at fs1 cur = KDir" using makedirs_walk_mono [OF w] by blast
      then show ?thesis using Cons.IH [OF w] by (simp add: namei_Cons_kind del: namei.simps)
    qed
  next
    case (KFile y t)
    then show ?thesis using Cons.prems by (auto simp: kind_at_simps)
  next
    case KDir
    then obtain es where "lookup fs cur = Some (Dir es)" by (auto simp: kind_at_simps)
    then have w: "makedirs_walk fs (step_comp cur x) comps = (Inr c, fs1)"
      using Cons.prems(1) by simp
    have "kind_at fs1 cur = KDir" using makedirs_walk_mono [OF w KDir] .
    then show ?thesis using Cons.IH [OF w] by (simp add: namei_Cons_kind del: namei.simps)
  next
    case (KBroken b)
    then show ?thesis using Cons.prems by (auto simp: kind_at_simps)
  qed
qed

lemma copytree_creates:
  assumes "copytree w src dst = (Inr u, w1)"
  shows "path_exists w1 dst" and "term_out w1 = term_out w"
proof -
  from assms obtain es where st: "stat w src = Inr (Dir es)"
    by (auto simp: copytree_def split: sum.splits node.splits)
  from assms st have ne: "dst \<noteq> []"
    by (auto simp: copytree_def split: if_splits)
  let ?start = "if hd dst = CHR ''/'' then [] else cwd w"
  from assms st ne obtain c fs1 where
    mw: "makedirs_walk (root_dir w) ?start (split_sep dst) = (Inr c, fs1)"
    by (auto simp: copytree_def split: prod.splits sum.splits)
  from assms st ne mw obtain fs2 where
    mk: "mkdir_at fs1 c (Dir (copy_entries es)) = Inr fs2"
    and w1: "w1 = w\<lparr>root_dir := fs2\<rparr>"
    by (auto simp: copytree_def split: sum.splits if_splits)
  have n1: "namei fs1 ?start (split_sep dst) = Inr c" using mw by (rule makedirs_walk_namei)
  have "namei fs2 ?start (split_sep dst) = Inr c"
    using mkdir_at_ok(2) [OF mk] n1 namei_mono by blast
  then have r: "resolve w1 dst = Inr c" using ne by (auto simp: resolve_def w1 split: if_splits)
  have "kind_at (root_dir w1) c = KDir"
    using mkdir_at_ok(1) [OF mk] by (simp add: kind_at_def w1)
  then show "path_exists w1 dst" using r by (auto simp: path_exists_iff)
  show "term_out w1 = term_out w" by (simp add: w1)
qed

lemma git_autocommit_keeps:
  assumes keep: "\<And>args v. path_exists v p \<Longrightarrow> path_exists (snd (check_output e args v)) p"
    and ex: "path_exists w p"
  shows "path_exists (git_autocommit e fullpath w) p"
proof -
  let ?c1 = "[''git'', ''init'', fullpath]"
  let ?c2 = "[''git'', ''-C'', fullpath, ''add'', ''.'']"
  let ?c3 = "[''git'', ''-C'', fullpath, ''commit'', ''-m'', ''Initial audit project'']"
  obtain r1 w1 where o1: "check_output e ?c1 w = (r1, w1)" by (cases "check_output e ?c1 w")
  have e1: "path_exists w1 p" using keep [OF ex, of ?c1] o1 by simp
  obtain r2 w2 where o2: "check_output e ?c2 w1 = (r2, w2)" by (cases "check_output e ?c2 w1")
  have e2: "path_exists w2 p" using keep [OF e1, of ?c2] o2 by simp
  obtain r3 w3 where o3: "check_output e ?c3 w2 = (r3, w3)" by (cases "check_output e ?c3 w2")
  have e3: "path_exists w3 p" using keep [OF e2, of ?c3] o3 by simp
  show ?thesis
    using e1 e2 e3 o1 o2 o3
    by (cases r1; cases r2; cases r3) (simp_all add: git_autocommit_def log_warning_def)
qed

text \<open>
  C5. With auto-commit configured, once the skeleton has been copied, \<^verbatim>\<open>init\<close>
  returns normally whatever the three calls of git do, as long as they leave the new
  project folder in place: the folder exists at the end, the first failing call ends
  the sequence with the warning \<^verbatim>\<open>Git initialization failed\<close>, and the last line
  printed reports the created project.
\<close>

theorem init_survives_git_failure:
  fixes e :: env and audit_name :: string and w :: world
  defines "fullpath \<equiv> join (AUDIT_FOLDER e) audit_name"
  assumes root: "path_exists w (AUDIT_FOLDER e)"
    and fresh: "\<not> path_exists w fullpath"
    and copy: "copytree w (join (INSTALL_FOLDER e) ''skel'') fullpath = (Inr (), w1)"
    and auto: "GIT_AUTOCOMMIT e"
    and keep: "\<And>args v. path_exists v fullpath \<Longrightarrow> path_exists (snd (check_output e args v)) fullpath"
  shows "\<exists>w'. init e audit_name w = (Inr (), w')
           \<and> path_exists w' fullpath
           \<and> term_out w' = term_out (git_autocommit e fullpath w1)
                 @ [Colored (''[+] Created audit project in '' @ fullpath) ''green'']
           \<and> (\<forall>err v. check_output e [''git'', ''init'', fullpath] w1 = (Inl err, v) \<longrightarrow>
                git_autocommit e fullpath w1
                  = log_warning (''Git initialization failed: '' @ str_of err) v)
           \<and> (\<forall>o1 v1 err v. check_output e [''git'', ''init'', fullpath] w1 = (Inr o1, v1) \<longrightarrow>
                check_output e [''git'', ''-C'', fullpath, ''add'', ''.''] v1 = (Inl err, v) \<longrightarrow>
                git_autocommit e fullpath w1
                  = log_warning (''Git initialization failed: '' @ str_of err) v)
           \<and> (\<forall>o1 v1 o2 v2 err v.
                check_output e [''git'', ''init'', fullpath] w1 = (Inr o1, v1) \<longrightarrow>
                check_output e [''git'', ''-C'', fullpath, ''add'', ''.''] v1 = (Inr o2, v2) \<longrightarrow>
                check_output e [''git'', ''-C'', fullpath, ''commit'', ''-m'',
                                ''Initial audit project''] v2 = (Inl err, v) \<longrightarrow>
                git_autocommit e fullpath w1
                  = log_warning (''Git initialization failed: '' @ str_of err) v)"
proof -
  let ?w2 = "git_autocommit e fullpath w1"
  let ?w' = "log_info (''Created audit project in '' @ fullpath) ?w2"
  have e1: "path_exists w1 fullpath" using copy by (rule copytree_creates)
  have e2: "path_exists ?w2 fullpath" using keep e1 by (rule git_autocommit_keeps)
  have gf: "get_fullpath e audit_name False w = Inr fullpath"
    by (simp add: get_fullpath_def fullpath_def)
  have gt: "get_fullpath e audit_name True ?w2 = Inr fullpath"
    using e2 by (simp add: get_fullpath_def fullpath_def)
  have i: "init e audit_name w = (Inr (), ?w')"
    using root fresh auto gt by (simp add: init_def gf copy)
  have e3: "path_exists ?w' fullpath" using e2 by (simp add: log_info_def)
  have t: "term_out ?w' = term_out ?w2
            @ [Colored (''[+] Created audit project in '' @ fullpath) ''green'']"
    by (simp add: log_info_def)
  have g1: "\<forall>err v. check_output e [''git'', ''init'', fullpath] w1 = (Inl err, v) \<longrightarrow>
                ?w2 = log_warning (''Git initialization failed: '' @ str_of err) v"
    by (simp add: git_autocommit_def)
  have g2: "\<forall>o1 v1 err v. check_output e [''git'', ''init'', fullpath] w1 = (Inr o1, v1) \<longrightarrow>
                check_output e [''git'', ''-C'', fullpath, ''add'', ''.''] v1 = (Inl err, v) \<longrightarrow>
                ?w2 = log_warning (''Git initialization failed: '' @ str_of err) v"
    by (simp add: git_autocommit_def)
  have g3: "\<forall>o1 v1 o2 v2 err v.
                check_output e [''git'', ''init'', fullpath] w1 = (Inr o1, v1) \<longrightarrow>
                check_output e [''git'', ''-C'', fullpath, ''add'', ''.''] v1 = (Inr o2, v2) \<longrightarrow>
                check_output e [''git'', ''-C'', fullpath, ''commit'', ''-m'',
                                ''Initial audit project''] v2 = (Inl err, v) \<longrightarrow>
                ?w2 = log_warning (''Git initialization failed: '' @ str_of err) v"
    by (simp add: git_autocommit_def)
  show ?thesis using i e3 t g1 g2 g3 by blast
qed

theorem init_survives_git_failure_witness:
  "path_exists demo_world (AUDIT_FOLDER demo_env)
   \<and> \<not> path_exists demo_world (join (AUDIT_FOLDER demo_env) ''fresh'')
   \<and> GIT_AUTOCOMMIT demo_env
   \<and> check_output demo_env [''git'', ''init'', ''/srv/audits/fresh'']
         (snd (copytree demo_world ''/opt/tool/skel'' ''/srv/audits/fresh''))
       = (Inl (Exception ''git: not found''),
          snd (copytree demo_world ''/opt/tool/skel'' ''/srv/audits/fresh''))
   \<and> (\<exists>w'. init demo_env ''fresh'' demo_world = (Inr (), w')
          \<and> path_exists w' ''/srv/audits/fresh''
          \<and> term_out w' = [Colored ''[!] Git initialization failed: git: not found'' ''yellow'',
                            Colored ''[+] Created audit project in /srv/audits/fresh'' ''green''])"
proof -
  let ?w1 = "snd (copytree demo_world (join (INSTALL_FOLDER demo_env) ''skel'')
                    (join (AUDIT_FOLDER demo_env) ''fresh''))"
  have j1: "join (AUDIT_FOLDER demo_env) ''fresh'' = ''/srv/audits/fresh''" by code_simp
  have j2: "join (INSTALL_FOLDER demo_env) ''skel'' = ''/opt/tool/skel''" by code_simp
  have keep: "\<And>args v. path_exists v (join (AUDIT_FOLDER demo_env) ''fresh'') \<Longrightarrow>
      path_exists (snd (check_output demo_env args v)) (join (AUDIT_FOLDER demo_env) ''fresh'')"
    by (simp add: demo_git_fails)
  have t1: "term_out ?w1 = []"
    using copytree_creates(2) [OF demo_fresh_copy] by (simp add: demo_world_def)
  from init_survives_git_failure [OF demo_root_exists demo_fresh_absent demo_fresh_copy
      demo_git_autocommit keep]
  obtain w' where i: "init demo_env ''fresh'' demo_world = (Inr (), w')"
    and p: "path_exists w' (join (AUDIT_FOLDER demo_env) ''fresh'')"
    and t: "term_out w' = term_out (git_autocommit demo_env (join (AUDIT_FOLDER demo_env) ''fresh'') ?w1)
              @ [Colored (''[+] Created audit project in '' @ join (AUDIT_FOLDER demo_env) ''fresh'')
                   ''green'']"
    and g: "\<forall>err v. check_output demo_env [''git'', ''init'', join (AUDIT_FOLDER demo_env) ''fresh''] ?w1
                = (Inl err, v) \<longrightarrow>
              git_autocommit demo_env (join (AUDIT_FOLDER demo_env) ''fresh'') ?w1
                = log_warning (''Git initialization failed: '' @ str_of err) v"
    by blast
  have "git_autocommit demo_env (join (AUDIT_FOLDER demo_env) ''fresh'') ?w1
          = log_warning (''Git initialization failed: '' @ str_of (Exception ''git: not found'')) ?w1"
    using g demo_git_fails by blast
  then have "term_out w' = [Colored ''[!] Git initialization failed: git: not found'' ''yellow'',
                            Colored ''[+] Created audit project in /srv/audits/fresh'' ''green'']"
    using t t1 by (simp add: log_warning_def j1)
  then show ?thesis
    using i p demo_root_exists demo_fresh_absent demo_git_autocommit demo_git_fails
    unfolding j1 j2 by blast
qed

subsection \<open>Encodable names\<close>




lemma encoded_valid:
  assumes "\<forall>n \<in> set names. utf8_valid n"
  shows "encoded names body = Inr body"
proof -
  have "filter (\<lambda>n. \<not> utf8_valid n) names = []"
    using assms by (simp add: filter_empty_conv)
  then show ?thesis by (simp add: encoded_def)
qed





lemma put_nondir:
  "\<not> is_dir_node m \<Longrightarrow> cs \<noteq> [] \<Longrightarrow> put m cs new = m"
  by (cases m; cases cs) auto






lemma project_files_encodable_term_out [simp]:
  "project_files_encodable (w\<lparr>term_out := out\<rparr>) p = project_files_encodable w p"
  by (simp add: project_files_encodable_def)





subsection \<open>The inventory scan\<close>

lemma run_writes_append:
  "run_writes (xs @ ys) =
     (case run_writes xs of
        (bodies, Some err) \<Rightarrow> (bodies, Some err)
      | (bodies, None) \<Rightarrow> (case run_writes ys of (later, r) \<Rightarrow> (bodies @ later, r)))"
  by (induction xs rule: run_writes.induct) (auto split: prod.splits option.splits)

lemma scan_files_run:
  "scan_files e w ap root files =
     run_writes (map (entry_write e w ap root)
                   (filter (\<lambda>file. file \<noteq> ''audit_file_list.txt'') files))"
  by (induction files) (auto split: sum.splits prod.splits)


lemma stat_error_line:
  assumes "stat w (join root file) = Inl err" and "utf8_valid file"
  shows "entry_write e w ap root file = Inr (''ERROR reading '' @ file @ '': '' @ str_of err @ nl)"
  using assms by (simp add: entry_write_def inventory_line_def getsize_def encoded_def)



text \<open>
  C9. The texts written by the scan are those of the files of the walk whose name is not
  \<^verbatim>\<open>audit_file_list.txt\<close>, one each and in order, until a write raises: a file of
  that name is left out in whatever directory of the project tree it lies.
\<close>

theorem self_exclusion_by_name:
  "scan_walk e w audit_path walk =
     run_writes
       (map (\<lambda>(root, file). entry_write e w audit_path root file)
          (filter (\<lambda>(root, file). file \<noteq> ''audit_file_list.txt'') (flat_walk walk)))"
proof (induction walk)
  case Nil
  show ?case by (simp add: flat_walk_def)
next
  case (Cons p walk)
  obtain root files where p: "p = (root, files)" by (cases p)
  have "filter (\<lambda>(root, file). file \<noteq> ''audit_file_list.txt'') (map (Pair root) files)
        = map (Pair root) (filter (\<lambda>file. file \<noteq> ''audit_file_list.txt'') files)"
    by (induction files) auto
  then show ?case using Cons
    by (simp add: p flat_walk_def scan_files_run run_writes_append comp_def)
qed

theorem self_exclusion_by_name_witness:
  "scan_walk demo_env demo_world ''/srv/audits/acme''
      [(''/srv/audits/acme/logs'', [''audit_file_list.txt'']),
       (''/srv/audits/acme/sub'', [''audit_file_list.txt''])] = ([], None)"
  using self_exclusion_by_name [of demo_env demo_world "''/srv/audits/acme''"
      "[(''/srv/audits/acme/logs'', [''audit_file_list.txt'']),
       (''/srv/audits/acme/sub'', [''audit_file_list.txt''])]"]
  by (simp add: flat_walk_def)

text \<open>
  C8 fails on the project \<^verbatim>\<open>esc\<close> of \<open>escaped_world\<close>. Its walk lists, between
  \<^verbatim>\<open>.audit\<close> and \<^verbatim>\<open>notes.txt\<close>, a dangling entry whose name is the byte \<open>0xFF\<close>.
  \<^verbatim>\<open>stat\<close> fails on it; the handler of line 69 writes the name to the log, which
  cannot encode it, and raises in its turn: \<^verbatim>\<open>start\<close> ends with
  \<^verbatim>\<open>UnicodeEncodeError\<close>, and the log holds the header and the line of \<^verbatim>\<open>.audit\<close>
  only, with no error line and no line for \<^verbatim>\<open>notes.txt\<close>.
\<close>

theorem undecodable_name_aborts_scan:
  "path_exists escaped_world (join (AUDIT_FOLDER demo_env) ''esc'')
   \<and> os_walk escaped_world ''/srv/audits/esc''
       = [(''/srv/audits/esc'', [''.audit'', [CHR 0xFF], ''notes.txt'']),
          (''/srv/audits/esc/logs'', [])]
   \<and> stat escaped_world (join ''/srv/audits/esc'' [CHR 0xFF])
       = Inl (OSError ''[Errno 2] No such file or directory'' (''/srv/audits/esc/'' @ [CHR 0xFF]))
   \<and> \<not> utf8_valid [CHR 0xFF]
   \<and> fst (start demo_env ''esc'' escaped_world) = Inl (UnicodeEncodeError [CHR 0xFF])
   \<and> file_content (snd (start demo_env ''esc'' escaped_world))
        ''/srv/audits/esc/logs/audit_file_list.txt''
       = Some (nl @ ''=== Audit File Inventory (START SESSION) ==='' @ nl
               @ ''Audit: esc'' @ nl
               @ ''Generated: T100'' @ nl @ nl
               @ ljust 80 ''.audit'' @ ''        0.00 KB   Modified: T5'' @ nl)
   \<and> file_content (snd (main demo_env (''start'', Some ''esc'') escaped_world))
        ''/srv/audits/esc/logs/audit_file_list.txt''
       = file_content (snd (start demo_env ''esc'' escaped_world))
           ''/srv/audits/esc/logs/audit_file_list.txt''"
  by code_simp

subsection \<open>Appending to the inventory log\<close>





subsection \<open>Exporting shell logs\<close>

text \<open>
  C6. For an existing project without \<^verbatim>\<open>logs/shell\<close>, \<^verbatim>\<open>export\<close> prints the error
  line and returns: the file system is the one it found (no HTML file is written, no
  earlier export is touched).
\<close>

theorem export_without_shell_dir:
  assumes "path_exists w (join (AUDIT_FOLDER e) audit_name)"
    and "\<not> path_exists w (join (join (join (AUDIT_FOLDER e) audit_name) ''logs'') ''shell'')"
  shows "export_shell_log e audit_name w =
           (Inr (), log_error (''No shell logs found in ''
              @ join (join (join (AUDIT_FOLDER e) audit_name) ''logs'') ''shell'') w)
         \<and> root_dir (snd (export_shell_log e audit_name w)) = root_dir w
         \<and> term_out (snd (export_shell_log e audit_name w)) =
             term_out w @ [Colored (''[X] No shell logs found in ''
                @ join (join (join (AUDIT_FOLDER e) audit_name) ''logs'') ''shell'') ''red'']"
  using assms by (simp add: export_shell_log_def get_fullpath_def log_error_def)

theorem export_without_shell_dir_witness:
  "path_exists demo_world (join (AUDIT_FOLDER demo_env) ''bare'')
   \<and> \<not> path_exists demo_world (join (join (join (AUDIT_FOLDER demo_env) ''bare'') ''logs'') ''shell'')
   \<and> export_shell_log demo_env ''bare'' demo_world =
       (Inr (), demo_world\<lparr>term_out :=
          [Colored ''[X] No shell logs found in /srv/audits/bare/logs/shell'' ''red'']\<rparr>)"
  using export_without_shell_dir [OF demo_bare_exists demo_bare_no_shell]
    demo_bare_exists demo_bare_no_shell
  by (simp add: join_def demo_env_def log_error_def demo_world_def)

lemma read_files_no_logs:
  "\<forall>file \<in> set files. \<not> endswith file ''.log'' \<Longrightarrow> read_files e w root files acc = Inr acc"
  by (induction files) auto

lemma read_walk_no_logs:
  "\<forall>(root, files) \<in> set walk. \<forall>file \<in> set files. \<not> endswith file ''.log'' \<Longrightarrow>
   read_walk e w walk acc = Inr acc"
proof (induction walk)
  case Nil
  show ?case by simp
next
  case (Cons p walk)
  obtain root files where p: "p = (root, files)" by (cases p)
  have "read_files e w root files acc = Inr acc"
    using Cons.prems by (intro read_files_no_logs) (auto simp: p)
  moreover have "read_walk e w walk acc = Inr acc"
    using Cons by auto
  ultimately show ?case by (simp add: p)
qed

lemma matched_names_flat:
  "matched_names walk =
     map snd (filter (\<lambda>(root, file). endswith file ''.log'') (flat_walk walk))"
proof (induction walk)
  case Nil
  show ?case by (simp add: matched_names_def flat_walk_def)
next
  case (Cons p walk)
  obtain root files where p: "p = (root, files)" by (cases p)
  have "map snd (filter (\<lambda>(root, file). endswith file ''.log'') (map (Pair root) files))
        = filter (\<lambda>file. endswith file ''.log'') files"
    by (induction files) auto
  then show ?case using Cons by (simp add: matched_names_def flat_walk_def p)
qed

lemma matched_names_none:
  assumes "\<forall>(root, files) \<in> set walk. \<forall>file \<in> set files. \<not> endswith file ''.log''"
  shows "matched_names walk = []"
  using assms by (auto simp: matched_names_def filter_empty_conv)

lemma read_text_regular:
  assumes "file_content w p = Some x"
  shows "read_text e w p = Inr (universal_newlines (decode_ignore (codec e) x))"
  using assms by (auto simp: file_content_def read_text_def split: sum.splits node.splits)

lemma read_files_ok:
  assumes "\<forall>file \<in> set files. endswith file ''.log'' \<longrightarrow> file_content w (join root file) \<noteq> None"
  shows "read_files e w root files acc =
           Inr (acc @ concat (map (log_block e w root)
                                (filter (\<lambda>file. endswith file ''.log'') files)))"
  using assms
proof (induction files arbitrary: acc)
  case Nil
  show ?case by simp
next
  case (Cons f files)
  show ?case
  proof (cases "endswith f ''.log''")
    case True
    with Cons.prems obtain x where fc: "file_content w (join root f) = Some x" by auto
    have rt: "read_text e w (join root f) = Inr (universal_newlines (decode_ignore (codec e) x))"
      using fc by (rule read_text_regular)
    have lb: "log_block e w root f =
                nl @ separator @ nl @ f @ nl @ separator @ nl
                @ universal_newlines (decode_ignore (codec e) x)"
      by (simp add: log_block_def fc)
    have "read_files e w root files
            (acc @ nl @ separator @ nl @ f @ nl @ separator @ nl
             @ universal_newlines (decode_ignore (codec e) x)) =
          Inr ((acc @ nl @ separator @ nl @ f @ nl @ separator @ nl
                @ universal_newlines (decode_ignore (codec e) x))
               @ concat (map (log_block e w root)
                           (filter (\<lambda>file. endswith file ''.log'') files)))"
      using Cons.prems by (intro Cons.IH) simp
    then show ?thesis using True by (simp add: rt lb)
  next
    case False
    have "read_files e w root files acc =
            Inr (acc @ concat (map (log_block e w root)
                                 (filter (\<lambda>file. endswith file ''.log'') files)))"
      using Cons.prems by (intro Cons.IH) simp
    then show ?thesis using False by simp
  qed
qed

lemma read_walk_ok:
  assumes "\<forall>(root, file) \<in> set (flat_walk walk).
             endswith file ''.log'' \<longrightarrow> file_content w (join root file) \<noteq> None"
  shows "read_walk e w walk acc =
           Inr (acc @ concat (map (\<lambda>(root, file). log_block e w root file)
                                (filter (\<lambda>(root, file). endswith file ''.log'')
                                   (flat_walk walk))))"
  using assms
proof (induction walk arbitrary: acc)
  case Nil
  show ?case by (simp add: flat_walk_def)
next
  case (Cons p walk)
  obtain root files where p: "p = (root, files)" by (cases p)
  have fw: "flat_walk ((root, files) # walk) = map (Pair root) files @ flat_walk walk"
    by (simp add: flat_walk_def)
  have "\<forall>file \<in> set files. endswith file ''.log'' \<longrightarrow> file_content w (join root file) \<noteq> None"
    using Cons.prems by (auto simp: fw p)
  then have rf: "read_files e w root files acc =
           Inr (acc @ concat (map (log_block e w root)
                                (filter (\<lambda>file. endswith file ''.log'') files)))"
    by (rule read_files_ok)
  have rest: "\<forall>(root, file) \<in> set (flat_walk walk).
             endswith file ''.log'' \<longrightarrow> file_content w (join root file) \<noteq> None"
    using Cons.prems by (auto simp: fw p)
  have m: "map (\<lambda>(root, file). log_block e w root file)
             (filter (\<lambda>(root, file). endswith file ''.log'') (map (Pair root) files))
           = map (log_block e w root) (filter (\<lambda>file. endswith file ''.log'') files)"
    by (induction files) auto
  show ?case using Cons.IH [OF rest] by (simp add: p rf fw m)
qed

lemma export_ok:
  assumes ex: "path_exists w (join (AUDIT_FOLDER e) name)"
    and sh: "path_exists w (join (join (join (AUDIT_FOLDER e) name) ''logs'') ''shell'')"
    and rd: "read_walk e w (os_walk w (join (join (join (AUDIT_FOLDER e) name) ''logs'') ''shell'')) []
             = Inr all_logs"
    and vn: "\<forall>n \<in> set (matched_names
                          (os_walk w (join (join (join (AUDIT_FOLDER e) name) ''logs'') ''shell''))).
               utf8_valid n"
    and wt: "writable_target w (join (join (AUDIT_FOLDER e) name) ''shell_log.html'')"
  shows "\<exists>w' c. export_shell_log e name w = (Inr (), w') \<and> file_update w c w'
           \<and> file_content w' (join (join (AUDIT_FOLDER e) name) ''shell_log.html'')
               = Some (''<html><body><pre>'' @ all_logs @ ''</pre></body></html>'')"
proof -
  let ?ap = "join (AUDIT_FOLDER e) name"
  let ?html = "join ?ap ''shell_log.html''"
  let ?body = "''<html><body><pre>'' @ all_logs @ ''</pre></body></html>''"
  have gf: "get_fullpath e name True w = Inr ?ap" using ex by (simp add: get_fullpath_def)
  from open_out_ok [OF wt, of Truncate] obtain c w1 t where
    c: "resolve w ?html = Inr c" and o: "open_out Truncate w ?html = Inr (c, w1)"
    and fu1: "file_update w c w1" and k1: "kind_at (root_dir w1) c = KFile [] t"
    by (auto simp: opened_content_def)
  have en: "encoded (matched_names (os_walk w (join (join ?ap ''logs'') ''shell''))) ?body
              = Inr ?body"
    using vn by (rule encoded_valid)
  let ?w2 = "fwrite c ?body w1"
  let ?w' = "log_info (''Exported audit logs to '' @ ?html) ?w2"
  from fwrite_ok [OF k1, of ?body] have fu2: "file_update w1 c ?w2"
    and k2: "kind_at (root_dir ?w2) c = KFile ?body (clock w1)"
    by auto
  have g: "export_shell_log e name w = (Inr (), ?w')"
    using sh by (simp add: export_shell_log_def gf rd o Let_def en [simplified])
  have fu: "file_update w c ?w'"
    using file_update_trans [OF fu1 fu2] by (simp add: log_info_def file_update_def)
  have r: "resolve ?w' ?html = Inr c" using c file_update_resolve [OF fu] by simp
  have k: "kind_at (root_dir ?w') c = KFile ?body (clock w1)"
    using k2 by (simp add: log_info_def)
  have "file_content ?w' ?html = Some ?body"
    using r k by (auto simp: file_content_iff)
  then show ?thesis using g fu by blast
qed

text \<open>
  C10. For an existing project whose \<^verbatim>\<open>logs/shell\<close> exists and holds no file whose
  name ends in \<^verbatim>\<open>.log\<close>, and whose \<^verbatim>\<open>shell_log.html\<close> is a regular file or absent,
  \<^verbatim>\<open>export\<close> succeeds and \<^verbatim>\<open>shell_log.html\<close> then holds exactly the empty wrapper.
\<close>

theorem export_no_logs_writes_empty_wrapper:
  fixes e :: env and audit_name :: string and w :: world
  defines "ap \<equiv> join (AUDIT_FOLDER e) audit_name"
  defines "shell_dir \<equiv> join (join ap ''logs'') ''shell''"
  assumes "path_exists w ap"
    and "path_exists w shell_dir"
    and "\<forall>(root, files) \<in> set (os_walk w shell_dir). \<forall>file \<in> set files. \<not> endswith file ''.log''"
    and "writable_target w (join ap ''shell_log.html'')"
  shows "\<exists>w'. export_shell_log e audit_name w = (Inr (), w')
          \<and> file_content w' (join ap ''shell_log.html'')
              = Some ''<html><body><pre></pre></body></html>''"
proof -
  have rd: "read_walk e w (os_walk w shell_dir) [] = Inr []"
    using assms(5) by (rule read_walk_no_logs)
  have "matched_names (os_walk w shell_dir) = []"
    using assms(5) by (rule matched_names_none)
  then have vn: "\<forall>n \<in> set (matched_names (os_walk w shell_dir)). utf8_valid n"
    by simp
  from export_ok [OF assms(3) [unfolded ap_def] assms(4) [unfolded shell_dir_def ap_def]
      rd [unfolded shell_dir_def ap_def] vn [unfolded shell_dir_def ap_def]
      assms(6) [unfolded ap_def]]
  show ?thesis unfolding ap_def by auto
qed

theorem export_no_logs_writes_empty_wrapper_witness:
  "path_exists demo_world (join (AUDIT_FOLDER demo_env) ''idle'')
   \<and> path_exists demo_world (join (join (join (AUDIT_FOLDER demo_env) ''idle'') ''logs'') ''shell'')
   \<and> os_walk demo_world (join (join (join (AUDIT_FOLDER demo_env) ''idle'') ''logs'') ''shell'')
       = [(''/srv/audits/idle/logs/shell'', [''readme.txt''])]
   \<and> \<not> endswith ''readme.txt'' ''.log''
   \<and> writable_target demo_world (join (join (AUDIT_FOLDER demo_env) ''idle'') ''shell_log.html'')
   \<and> file_content demo_world ''/srv/audits/idle/shell_log.html'' = Some ''old export''
   \<and> (\<exists>w'. export_shell_log demo_env ''idle'' demo_world = (Inr (), w')
          \<and> file_content w' ''/srv/audits/idle/shell_log.html''
              = Some ''<html><body><pre></pre></body></html>'')"
proof -
  have j: "join (join (AUDIT_FOLDER demo_env) ''idle'') ''shell_log.html''
           = ''/srv/audits/idle/shell_log.html''"
    by code_simp
  have k: "os_walk demo_world (join (join (join (AUDIT_FOLDER demo_env) ''idle'') ''logs'') ''shell'')
       = [(''/srv/audits/idle/logs/shell'', [''readme.txt''])]"
    by code_simp
  have n: "\<not> endswith ''readme.txt'' ''.log''" by code_simp
  show ?thesis
    using export_no_logs_writes_empty_wrapper [OF demo_idle_exists demo_idle_shell_exists
        demo_idle_no_logs demo_idle_html_writable]
      demo_idle_exists demo_idle_shell_exists k n demo_idle_html_writable
      demo_idle_old_export
    unfolding j by blast
qed

text \<open>
  C4, as amended. For an existing project whose \<^verbatim>\<open>logs/shell\<close> exists, when every
  file of its walk whose name ends in \<^verbatim>\<open>.log\<close> is a regular file with an encodable
  name, and \<^verbatim>\<open>shell_log.html\<close> is a regular file or absent, \<^verbatim>\<open>export\<close> succeeds, and
  the HTML output holds, inside the wrapper, one block per matched file, in the order
  of the walk: the separator lines, the file's name, and the file's bytes decoded with
  the error handler \<open>ignore\<close> (\<open>decode_ignore\<close>: an undecodable range contributes
  nothing, and decoding is total, so no byte aborts the read) and with newlines
  normalised.
\<close>

theorem export_includes_decoded_logs:
  fixes e :: env and audit_name :: string and w :: world
  defines "ap \<equiv> join (AUDIT_FOLDER e) audit_name"
  defines "shell_dir \<equiv> join (join ap ''logs'') ''shell''"
  defines "logs \<equiv> filter (\<lambda>(root, file). endswith file ''.log'') (flat_walk (os_walk w shell_dir))"
  assumes ex: "path_exists w ap"
    and sh: "path_exists w shell_dir"
    and rg: "\<forall>(root, file) \<in> set logs.
               file_content w (join root file) \<noteq> None \<and> utf8_valid file"
    and wt: "writable_target w (join ap ''shell_log.html'')"
  shows "\<exists>w'. export_shell_log e audit_name w = (Inr (), w')
          \<and> file_content w' (join ap ''shell_log.html'')
              = Some (''<html><body><pre>''
                      @ concat (map (\<lambda>(root, file).
                                  nl @ separator @ nl @ file @ nl @ separator @ nl
                                  @ universal_newlines
                                      (decode_ignore (codec e)
                                         (the (file_content w (join root file))))) logs)
                      @ ''</pre></body></html>'')"
proof -
  have reg: "\<forall>(root, file) \<in> set (flat_walk (os_walk w shell_dir)).
               endswith file ''.log'' \<longrightarrow> file_content w (join root file) \<noteq> None"
    using rg by (auto simp: logs_def)
  have rd: "read_walk e w (os_walk w shell_dir) [] =
              Inr (concat (map (\<lambda>(root, file). log_block e w root file) logs))"
    using read_walk_ok [OF reg, of e "[]"] by (simp add: logs_def)
  have vn: "\<forall>n \<in> set (matched_names (os_walk w shell_dir)). utf8_valid n"
    using rg by (auto simp: matched_names_flat logs_def)
  have lb: "map (\<lambda>(root, file). log_block e w root file) logs
            = map (\<lambda>(root, file).
                     nl @ separator @ nl @ file @ nl @ separator @ nl
                     @ universal_newlines
                         (decode_ignore (codec e) (the (file_content w (join root file))))) logs"
    using rg by (intro map_cong) (auto simp: log_block_def)
  from export_ok [OF ex [unfolded ap_def] sh [unfolded shell_dir_def ap_def]
      rd [unfolded shell_dir_def ap_def] vn [unfolded shell_dir_def ap_def]
      wt [unfolded ap_def]]
  show ?thesis unfolding ap_def lb [symmetric] by auto
qed

theorem export_includes_decoded_logs_witness:
  "path_exists demo_world (join (AUDIT_FOLDER demo_env) ''acme'')
   \<and> path_exists demo_world (join (join (join (AUDIT_FOLDER demo_env) ''acme'') ''logs'') ''shell'')
   \<and> filter (\<lambda>(root, file). endswith file ''.log'')
        (flat_walk (os_walk demo_world
           (join (join (join (AUDIT_FOLDER demo_env) ''acme'') ''logs'') ''shell'')))
       = [(''/srv/audits/acme/logs/shell'', ''a.log'')]
   \<and> file_content demo_world (join ''/srv/audits/acme/logs/shell'' ''a.log'')
       = Some [CHR ''A'', CHR 0xFF, CHR ''B'']
   \<and> utf8_valid ''a.log''
   \<and> writable_target demo_world (join (join (AUDIT_FOLDER demo_env) ''acme'') ''shell_log.html'')
   \<and> (\<exists>w'. export_shell_log demo_env ''acme'' demo_world = (Inr (), w')
          \<and> file_content w' (join (join (AUDIT_FOLDER demo_env) ''acme'') ''shell_log.html'')
              = Some (''<html><body><pre>''
                      @ nl @ separator @ nl @ ''a.log'' @ nl @ separator @ nl @ ''AB''
                      @ ''</pre></body></html>''))"
proof -
  have rg: "\<forall>(root, file) \<in> set (filter (\<lambda>(root, file). endswith file ''.log'')
               (flat_walk (os_walk demo_world
                  (join (join (join (AUDIT_FOLDER demo_env) ''acme'') ''logs'') ''shell'')))).
              file_content demo_world (join root file) \<noteq> None \<and> utf8_valid file"
    unfolding demo_acme_logs using demo_acme_log_bytes demo_acme_log_name
    by (simp del: utf8_valid.simps)
  from export_includes_decoded_logs [OF demo_acme_exists demo_acme_shell_exists rg
      demo_acme_html_writable]
  obtain w' where x: "export_shell_log demo_env ''acme'' demo_world = (Inr (), w')"
    and f: "file_content w' (join (join (AUDIT_FOLDER demo_env) ''acme'') ''shell_log.html'')
              = Some (''<html><body><pre>''
                      @ concat (map (\<lambda>(root, file).
                                  nl @ separator @ nl @ file @ nl @ separator @ nl
                                  @ universal_newlines
                                      (decode_ignore (codec demo_env)
                                         (the (file_content demo_world (join root file)))))
                                 [(''/srv/audits/acme/logs/shell'', ''a.log'')])
                      @ ''</pre></body></html>'')"
    unfolding demo_acme_logs by blast
  have "concat (map (\<lambda>(root, file).
                  nl @ separator @ nl @ file @ nl @ separator @ nl
                  @ universal_newlines
                      (decode_ignore (codec demo_env)
                         (the (file_content demo_world (join root file)))))
                 [(''/srv/audits/acme/logs/shell'', ''a.log'')])
        = nl @ separator @ nl @ ''a.log'' @ nl @ separator @ nl @ ''AB''"
    unfolding list.map concat.simps prod.case demo_acme_log_bytes option.sel append_Nil2
    by (rule demo_acme_block)
  with f have "file_content w' (join (join (AUDIT_FOLDER demo_env) ''acme'') ''shell_log.html'')
              = Some (''<html><body><pre>''
                      @ nl @ separator @ nl @ ''a.log'' @ nl @ separator @ nl @ ''AB''
                      @ ''</pre></body></html>'')"
    by (simp only: append_assoc)
  with x have "\<exists>w'. export_shell_log demo_env ''acme'' demo_world = (Inr (), w')
          \<and> file_content w' (join (join (AUDIT_FOLDER demo_env) ''acme'') ''shell_log.html'')
              = Some (''<html><body><pre>''
                      @ nl @ separator @ nl @ ''a.log'' @ nl @ separator @ nl @ ''AB''
                      @ ''</pre></body></html>'')"
    by blast
  then show ?thesis
    using demo_acme_exists demo_acme_shell_exists demo_acme_logs demo_acme_log_bytes
      demo_acme_log_name demo_acme_html_writable
    by (intro conjI) (assumption+)
qed

text \<open>
  C4, as stated, fails: the log \<^verbatim>\<open>a.log\<close> holds the bytes \<open>A\<close>, \<open>0xFF\<close>, \<open>B\<close>, and
  \<open>0xFF\<close> is undecodable in the ASCII codec. The export holds the text \<open>AB\<close>: the
  byte is dropped, not replaced by a substitute as \<open>decode_replace\<close> does.
\<close>

theorem export_undecodable_byte_not_replaced:
  "file_content demo_world ''/srv/audits/acme/logs/shell/a.log'' = Some [CHR ''A'', CHR 0xFF, CHR ''B'']
   \<and> codec demo_env [CHR 0xFF, CHR ''B''] = (None, 1)
   \<and> file_content (snd (export_shell_log demo_env ''acme'' demo_world))
        ''/srv/audits/acme/shell_log.html''
       = Some (''<html><body><pre>'' @ nl @ separator @ nl @ ''a.log'' @ nl @ separator @ nl
               @ ''AB'' @ ''</pre></body></html>'')
   \<and> decode_replace (codec demo_env) [CHR ''A'', CHR 0xFF, CHR ''B'']
       = [CHR ''A'', CHR 0xEF, CHR 0xBF, CHR 0xBD, CHR ''B'']
   \<and> read_text demo_env demo_world ''/srv/audits/acme/logs/shell/a.log''
       \<noteq> Inr (universal_newlines
                (decode_replace (codec demo_env) [CHR ''A'', CHR 0xFF, CHR ''B'']))"
  by code_simp

end
